theory Spec2Isabelle
  imports Main
begin

section \<open>JavaScript strings\<close>

text \<open>
  A JavaScript string is a sequence of UTF-16 code units. The regular expression and
  \<^verbatim>\<open>trim()\<close> of the worker inspect code units, so strings are lists of code-unit
  numbers; ASCII literals are written with \<open>ascii\<close>.
\<close>

type_synonym jsstring = "nat list"

definition ascii :: "string \<Rightarrow> jsstring" where
  "ascii s = map of_char s"

text \<open>
  \<^verbatim>\<open>String.prototype.trim\<close> removes WhiteSpace and LineTerminator code points from both
  ends: TAB, LF, VT, FF, CR, SPACE, NBSP, the Unicode space separators (U+1680,
  U+2000..U+200A, U+202F, U+205F, U+3000), LS, PS and U+FEFF.
\<close>

definition is_js_whitespace :: "nat \<Rightarrow> bool" where
  "is_js_whitespace c =
     ((9 \<le> c \<and> c \<le> 13) \<or> c = 32 \<or> c = 160 \<or> c = 5760 \<or> (8192 \<le> c \<and> c \<le> 8202)
      \<or> c = 8232 \<or> c = 8233 \<or> c = 8239 \<or> c = 8287 \<or> c = 12288 \<or> c = 65279)"

definition trim :: "jsstring \<Rightarrow> jsstring" where
  "trim s = rev (dropWhile is_js_whitespace (rev (dropWhile is_js_whitespace s)))"

text \<open>The character class \<^verbatim>\<open>[A-Z0-9]\<close>.\<close>

definition is_id_char :: "nat \<Rightarrow> bool" where
  "is_id_char c = ((65 \<le> c \<and> c \<le> 90) \<or> (48 \<le> c \<and> c \<le> 57))"

text \<open>
  \<open>mention_at s\<close>: a match of \<^verbatim>\<open><@[A-Z0-9]+>\<close> anchored at the start of \<open>s\<close>, given
  as what follows the match. The run \<^verbatim>\<open>[A-Z0-9]+\<close> is greedy, and the closing
  bracket is outside the class, so the longest run followed by the bracket is the only
  possible match.
\<close>

definition mention_at :: "jsstring \<Rightarrow> jsstring option" where
  "mention_at s =
     (case s of
        a # b # cs \<Rightarrow>
          if a = 60 \<and> b = 64 \<and> takeWhile is_id_char cs \<noteq> [] then
            (case dropWhile is_id_char cs of
               d # ds \<Rightarrow> if d = 62 then Some ds else None
             | [] \<Rightarrow> None)
          else None
      | _ \<Rightarrow> None)"

lemma mention_at_shorter: "mention_at s = Some r \<Longrightarrow> length r < length s"
proof -
  assume m: "mention_at s = Some r"
  then obtain a b cs where s: "s = a # b # cs"
    by (cases s rule: list.exhaust; simp add: mention_at_def split: list.splits)
  from m s obtain d where "dropWhile is_id_char cs = d # r"
    by (auto simp: mention_at_def split: list.splits if_splits)
  then have "length (d # r) \<le> length cs"
    by (metis length_dropWhile_le)
  with s show ?thesis by simp
qed

text \<open>
  \<^verbatim>\<open>text.replace(/<@[A-Z0-9]+>/g, '')\<close>: scan from the left, drop every match, resume
  after it.
\<close>

function strip_mentions :: "jsstring \<Rightarrow> jsstring" where
  "strip_mentions [] = []"
| "strip_mentions (c # cs) =
     (case mention_at (c # cs) of
        Some r \<Rightarrow> strip_mentions r
      | None \<Rightarrow> c # strip_mentions cs)"
  by pat_completeness auto
termination
  by (relation "measure length") (auto dest: mention_at_shorter)

definition extract_question :: "jsstring \<Rightarrow> jsstring" where
  "extract_question t = trim (strip_mentions t)"

text \<open>\<^verbatim>\<open>parts.join(sep)\<close>.\<close>

fun js_join :: "jsstring \<Rightarrow> jsstring list \<Rightarrow> jsstring" where
  "js_join sep [] = []"
| "js_join sep [x] = x"
| "js_join sep (x # y # ys) = x @ sep @ js_join sep (y # ys)"

section \<open>Fixed texts of the worker\<close>

definition HELP_MESSAGE :: jsstring where
  "HELP_MESSAGE = [36074, 21839, 12434, 20837, 21147, 12375, 12390, 12367, 12384, 12373,
     12356, 12290, 20363, 58, 32, 96, 64, 98, 111, 116, 32, 79, 112, 101, 110, 82, 84, 66,
     12392, 12399, 65311, 96]"

definition CONFIG_ERROR_ANSWER :: jsstring where
  "CONFIG_ERROR_ANSWER = [35373, 23450, 12456, 12521, 12540, 58, 32, 71, 69, 77, 73, 78, 73,
     95, 65, 80, 73, 95, 75, 69, 89, 12364, 35373, 23450, 12373, 12428, 12390, 12356, 12414,
     12379, 12435]"

definition AGENT_ERROR_ANSWER :: jsstring where
  "AGENT_ERROR_ANSWER = [22238, 31572, 12398, 29983, 25104, 20013, 12395, 12456, 12521,
     12540, 12364, 30330, 29983, 12375, 12414, 12375, 12383, 12290]"

definition EMPTY_RESPONSE_ANSWER :: jsstring where
  "EMPTY_RESPONSE_ANSWER = [22238, 31572, 12434, 29983, 25104, 12391, 12365, 12414, 12379,
     12435, 12391, 12375, 12383]"

definition API_ERROR_ANSWER :: jsstring where
  "API_ERROR_ANSWER = [22238, 31572, 12398, 29983, 25104, 20013, 12395, 12456, 12521, 12540,
     12364, 30330, 29983, 12375, 12414, 12375, 12383]"

definition userPrompt :: "jsstring \<Rightarrow> jsstring \<Rightarrow> jsstring" where
  "userPrompt question passages =
     [35, 35, 32, 36074, 21839, 10] @ question
     @ [10, 10, 35, 35, 32, 21442, 29031, 12489, 12461, 12517, 12513, 12531, 12488, 10]
     @ passages"

definition MAX_ITERATIONS :: nat where
  "MAX_ITERATIONS = 10"

section \<open>Data model\<close>

record SlackEvent =
  event_id :: jsstring
  event_time :: nat
  team_id :: jsstring
  channel :: jsstring
  user :: jsstring
  event_text :: jsstring
  ts :: jsstring
  thread_ts :: jsstring

text \<open>
  The body of a push delivery, by what the first two checks of the endpoint make of it:
  no \<^verbatim>\<open>message.data\<close>, data that does not decode to JSON, or a decoded event. A
  decoded event is taken to have the fields its interface \<^verbatim>\<open>SlackEvent\<close> declares, all
  strings but the time.
\<close>

datatype PubSubMessage = NoData | Undecodable | Data SlackEvent

record http_response =
  status :: nat
  body :: jsstring

text \<open>The document stored under an event id in \<^verbatim>\<open>processed_events\<close>.\<close>

record marker =
  processed_at :: nat
  marker_channel :: jsstring
  marker_ts :: jsstring

text \<open>A thrown \<^verbatim>\<open>Error\<close>, with its message.\<close>

datatype error = Error jsstring

fun message_of :: "error \<Rightarrow> jsstring" where
  "message_of (Error m) = m"

subsection \<open>Tool catalogue (mcp.ts)\<close>

text \<open>
  A JSON-schema node of an MCP tool, with the fields \<^verbatim>\<open>convertSchema\<close> reads. The node
  is untyped in the code (\<^verbatim>\<open>schema: any\<close>), and what \<^verbatim>\<open>type\<close> holds decides whether
  the conversion throws: it is absent (undefined or null), a string, or some other value,
  such as the array \<^verbatim>\<open>["string", "null"]\<close>. The other fields are taken with the shapes
  JSON Schema gives them.
\<close>

datatype type_field = TypeString jsstring | TypeOther

datatype schema = Schema
  (schema_type: "type_field option")
  (schema_description: "jsstring option")
  (schema_nullable: "bool option")
  (schema_properties: "(jsstring \<times> schema) list option")
  (schema_required: "jsstring list option")
  (schema_items: "schema option")
  (schema_enum: "jsstring list option")

datatype SchemaType = STRING | NUMBER | INTEGER | BOOLEAN | ARRAY | OBJECT

datatype gschema = GSchema
  (g_type: SchemaType)
  (g_description: "jsstring option")
  (g_nullable: "bool option")
  (g_properties: "(jsstring \<times> gschema) list option")
  (g_required: "jsstring list option")
  (g_items: "gschema option")
  (g_enum: "jsstring list option")

record mcp_tool =
  tool_name :: jsstring
  tool_description :: "jsstring option"
  inputSchema :: "schema option"

record FunctionDeclaration =
  fd_name :: jsstring
  fd_description :: jsstring
  fd_parameters :: "gschema option"

text \<open>
  The part of \<^verbatim>\<open>toLowerCase()\<close> that matters for the \<^verbatim>\<open>switch\<close>: the letters A..Z
  become a..z. Every other code unit lower-cases to something that cannot be part of one
  of the six type names (a code unit outside ASCII, or the letter k for the Kelvin sign),
  so leaving it as it is selects the same case.
\<close>

definition toLowerCase_ascii :: "jsstring \<Rightarrow> jsstring" where
  "toLowerCase_ascii s = map (\<lambda>c. if 65 \<le> c \<and> c \<le> 90 then c + 32 else c) s"

text \<open>
  \<^verbatim>\<open>type?.toLowerCase()\<close>: undefined for an absent type, a \<^verbatim>\<open>TypeError\<close> for a value
  that has no such method.
\<close>

definition NOT_A_FUNCTION :: error where
  "NOT_A_FUNCTION = Error (ascii ''type?.toLowerCase is not a function'')"

definition mapSchemaType :: "type_field option \<Rightarrow> error + SchemaType" where
  "mapSchemaType t =
     (case t of
        None \<Rightarrow> Inr STRING
      | Some TypeOther \<Rightarrow> Inl NOT_A_FUNCTION
      | Some (TypeString s) \<Rightarrow>
          (let l = toLowerCase_ascii s in
           if l = ascii ''string'' then Inr STRING
           else if l = ascii ''number'' then Inr NUMBER
           else if l = ascii ''integer'' then Inr INTEGER
           else if l = ascii ''boolean'' then Inr BOOLEAN
           else if l = ascii ''array'' then Inr ARRAY
           else if l = ascii ''object'' then Inr OBJECT
           else Inr STRING))"

text \<open>The results of a run of calls made one after the other: the first throw ends it.\<close>

fun first_error :: "(error + 'a) list \<Rightarrow> error + 'a list" where
  "first_error [] = Inr []"
| "first_error (Inl err # rs) = Inl err"
| "first_error (Inr x # rs) =
     (case first_error rs of Inl err \<Rightarrow> Inl err | Inr xs \<Rightarrow> Inr (x # xs))"

fun with_key :: "jsstring \<times> (error + 'a) \<Rightarrow> error + (jsstring \<times> 'a)" where
  "with_key (k, Inl err) = Inl err"
| "with_key (k, Inr x) = Inr (k, x)"

fun optional :: "(error + 'a) option \<Rightarrow> error + 'a option" where
  "optional None = Inr None"
| "optional (Some (Inl err)) = Inl err"
| "optional (Some (Inr x)) = Inr (Some x)"

text \<open>
  \<^verbatim>\<open>convertSchema\<close> on a node that is there (an absent one converts to undefined, which
  \<open>map_option\<close> does at the two places that may pass one): the type first, then the
  properties in order, then the items.
\<close>

primrec convertSchema :: "schema \<Rightarrow> error + gschema" where
  "convertSchema (Schema t d n ps r i e) =
     (case mapSchemaType t of
        Inl err \<Rightarrow> Inl err
      | Inr ty \<Rightarrow>
          (case optional (map_option (\<lambda>xs. first_error (map with_key xs))
                   (map_option (map (map_prod id convertSchema)) ps)) of
             Inl err \<Rightarrow> Inl err
           | Inr props \<Rightarrow>
               (case optional (map_option convertSchema i) of
                  Inl err \<Rightarrow> Inl err
                | Inr items \<Rightarrow> Inr (GSchema ty d n props r items e))))"

subsection \<open>Conversation with the model and tool calls\<close>

text \<open>The arguments object of a function call: passed through to the tool unchanged.\<close>

type_synonym args = "(jsstring \<times> jsstring) list"

record FunctionCall =
  call_name :: jsstring
  call_args :: args

text \<open>One content fragment of a tool result: text, or another kind (by its type tag).\<close>

datatype fragment = TextContent jsstring | OtherContent jsstring

record CallToolResult =
  result_content :: "fragment list"
  result_isError :: "bool option"

record ToolResult =
  content :: jsstring
  isError :: "bool option"

text \<open>
  The \<^verbatim>\<open>response\<close> object of a function-response part: \<^verbatim>\<open>{ content }\<close> or
  \<^verbatim>\<open>{ error }\<close>.
\<close>

datatype response_payload = Content jsstring | ErrorMessage jsstring

record functionResponse =
  fr_name :: jsstring
  fr_response :: response_payload

datatype message = Text jsstring | Parts "functionResponse list"

text \<open>
  What the model returned for one send, as the two accessors the agent calls give it:
  \<^verbatim>\<open>functionCalls()\<close> (an array or undefined) and \<^verbatim>\<open>text()\<close>. The SDK lets either
  throw, on a blocked or cut-off response.
\<close>

record response =
  functionCalls :: "error + FunctionCall list option"
  response_text :: "error + jsstring"

record GenerateAnswerResult =
  answer :: jsstring
  success :: bool

section \<open>The world outside the worker\<close>

text \<open>
  Every call that leaves the process is logged, oldest first, with whether it succeeded.
  A send to the model is logged with the tool declarations of its chat and the message;
  the model name and the system instruction are constants of each variant of
  \<^verbatim>\<open>generateAnswer\<close> and are left out.
\<close>

datatype effect =
    FirestoreGet jsstring
  | FirestoreSet jsstring marker
  | SlackPost jsstring jsstring jsstring
  | McpConnect
  | McpListTools
  | McpCallTool jsstring args
  | GeminiSend "FunctionDeclaration list" message

type_synonym entry = "effect \<times> bool"

text \<open>
  The collaborators: each answer may depend on everything that happened before (the log
  so far) and on the request. Firestore answers a read from the collection as this
  process left it, unless the read fails; writers in other processes are not modelled.
\<close>

record env =
  firestore_get_error :: "entry list \<Rightarrow> jsstring \<Rightarrow> error option"
  firestore_set_error :: "entry list \<Rightarrow> jsstring \<Rightarrow> marker \<Rightarrow> error option"
  timestamp_now :: "entry list \<Rightarrow> nat"
  slack_post_error :: "entry list \<Rightarrow> jsstring \<Rightarrow> jsstring \<Rightarrow> jsstring \<Rightarrow> error option"
  mcp_connect_error :: "entry list \<Rightarrow> error option"
  mcp_list_tools :: "entry list \<Rightarrow> error + mcp_tool list"
  mcp_call_tool :: "entry list \<Rightarrow> jsstring \<Rightarrow> args \<Rightarrow> error + CallToolResult"
  gemini_send :: "entry list \<Rightarrow> FunctionDeclaration list \<Rightarrow> message \<Rightarrow> error + response"

text \<open>Process configuration and the library function the code takes from the platform.\<close>

record config =
  GEMINI_API_KEY :: jsstring
  MCP_URL_valid :: bool
  JSON_stringify :: "fragment list \<Rightarrow> jsstring"

text \<open>
  The state: the log, the Firestore collection, and the module variables \<^verbatim>\<open>client\<close>
  (mcp.ts) and \<^verbatim>\<open>genAI\<close> (non-null or not).
\<close>

record world =
  trace :: "entry list"
  processed_events :: "jsstring \<rightharpoonup> marker"
  client :: bool
  genAI :: bool

definition log_effect :: "world \<Rightarrow> effect \<Rightarrow> bool \<Rightarrow> world" where
  "log_effect w e ok = w\<lparr>trace := trace w @ [(e, ok)]\<rparr>"

section \<open>Calls that leave the process\<close>

text \<open>
  An awaited call returns the new state and either the thrown error (\<open>Inl\<close>) or the
  value (\<open>Inr\<close>).
\<close>

definition firestore_doc_get :: "env \<Rightarrow> world \<Rightarrow> jsstring \<Rightarrow> world \<times> (error + bool)" where
  "firestore_doc_get env w eventId =
     (case firestore_get_error env (trace w) eventId of
        Some err \<Rightarrow> (log_effect w (FirestoreGet eventId) False, Inl err)
      | None \<Rightarrow>
          (log_effect w (FirestoreGet eventId) True, Inr (processed_events w eventId \<noteq> None)))"

definition firestore_doc_set ::
  "env \<Rightarrow> world \<Rightarrow> jsstring \<Rightarrow> marker \<Rightarrow> world \<times> (error + unit)" where
  "firestore_doc_set env w eventId m =
     (case firestore_set_error env (trace w) eventId m of
        Some err \<Rightarrow> (log_effect w (FirestoreSet eventId m) False, Inl err)
      | None \<Rightarrow>
          (log_effect (w\<lparr>processed_events := (processed_events w)(eventId \<mapsto> m)\<rparr>)
             (FirestoreSet eventId m) True,
           Inr ()))"

definition slack_postMessage ::
  "env \<Rightarrow> world \<Rightarrow> jsstring \<Rightarrow> jsstring \<Rightarrow> jsstring \<Rightarrow> world \<times> (error + unit)" where
  "slack_postMessage env w ch threadTs txt =
     (case slack_post_error env (trace w) ch threadTs txt of
        Some err \<Rightarrow> (log_effect w (SlackPost ch threadTs txt) False, Inl err)
      | None \<Rightarrow> (log_effect w (SlackPost ch threadTs txt) True, Inr ()))"

definition client_connect :: "env \<Rightarrow> world \<Rightarrow> world \<times> (error + unit)" where
  "client_connect env w =
     (case mcp_connect_error env (trace w) of
        Some err \<Rightarrow> (log_effect w McpConnect False, Inl err)
      | None \<Rightarrow> (log_effect w McpConnect True, Inr ()))"

definition client_listTools :: "env \<Rightarrow> world \<Rightarrow> world \<times> (error + mcp_tool list)" where
  "client_listTools env w =
     (case mcp_list_tools env (trace w) of
        Inl err \<Rightarrow> (log_effect w McpListTools False, Inl err)
      | Inr tools \<Rightarrow> (log_effect w McpListTools True, Inr tools))"

definition client_callTool ::
  "env \<Rightarrow> world \<Rightarrow> jsstring \<Rightarrow> args \<Rightarrow> world \<times> (error + CallToolResult)" where
  "client_callTool env w name a =
     (case mcp_call_tool env (trace w) name a of
        Inl err \<Rightarrow> (log_effect w (McpCallTool name a) False, Inl err)
      | Inr r \<Rightarrow> (log_effect w (McpCallTool name a) True, Inr r))"

definition sendMessage ::
  "env \<Rightarrow> FunctionDeclaration list \<Rightarrow> world \<Rightarrow> message \<Rightarrow> world \<times> (error + response)" where
  "sendMessage env tools w msg =
     (case gemini_send env (trace w) tools msg of
        Inl err \<Rightarrow> (log_effect w (GeminiSend tools msg) False, Inl err)
      | Inr r \<Rightarrow> (log_effect w (GeminiSend tools msg) True, Inr r))"

section \<open>Idempotency ledger (index.ts)\<close>

definition isEventProcessed :: "env \<Rightarrow> world \<Rightarrow> jsstring \<Rightarrow> world \<times> (error + bool)" where
  "isEventProcessed env w eventId =
     (case firestore_doc_get env w eventId of
        (w', Inr doc_exists) \<Rightarrow> (w', Inr doc_exists)
      | (w', Inl err) \<Rightarrow> (w', Inr False))"

definition markEventProcessed ::
  "env \<Rightarrow> world \<Rightarrow> jsstring \<Rightarrow> jsstring \<Rightarrow> jsstring \<Rightarrow> world \<times> (error + unit)" where
  "markEventProcessed env w eventId ch t =
     (case firestore_doc_set env w eventId
             \<lparr>processed_at = timestamp_now env (trace w), marker_channel = ch, marker_ts = t\<rparr> of
        (w', Inr u) \<Rightarrow> (w', Inr ())
      | (w', Inl err) \<Rightarrow> (w', Inr ()))"

definition replyToSlack ::
  "env \<Rightarrow> world \<Rightarrow> jsstring \<Rightarrow> jsstring \<Rightarrow> jsstring \<Rightarrow> world \<times> (error + unit)" where
  "replyToSlack env w ch threadTs txt = slack_postMessage env w ch threadTs txt"

section \<open>Tool adapter (mcp.ts)\<close>

text \<open>
  \<^verbatim>\<open>getClient\<close>: the module variable is assigned before the connection is awaited, so it
  stays set when \<^verbatim>\<open>connect\<close> throws.
\<close>

definition getClient :: "env \<Rightarrow> config \<Rightarrow> world \<Rightarrow> world \<times> (error + unit)" where
  "getClient env cfg w =
     (if client w then (w, Inr ())
      else if \<not> MCP_URL_valid cfg then (w, Inl (Error (ascii ''Invalid URL'')))
      else client_connect env (w\<lparr>client := True\<rparr>))"

definition toDeclaration :: "mcp_tool \<Rightarrow> error + FunctionDeclaration" where
  "toDeclaration t =
     (case optional (map_option convertSchema (inputSchema t)) of
        Inl err \<Rightarrow> Inl err
      | Inr parameters \<Rightarrow>
          Inr \<lparr>fd_name = tool_name t,
               fd_description = (case tool_description t of None \<Rightarrow> [] | Some d \<Rightarrow> d),
               fd_parameters = parameters\<rparr>)"

text \<open>\<^verbatim>\<open>tools.map(...)\<close> of \<^verbatim>\<open>getGeminiTools\<close>.\<close>

definition convertTools :: "mcp_tool list \<Rightarrow> error + FunctionDeclaration list" where
  "convertTools tools = first_error (map toDeclaration tools)"

definition getGeminiTools ::
  "env \<Rightarrow> config \<Rightarrow> world \<Rightarrow> world \<times> (error + FunctionDeclaration list)" where
  "getGeminiTools env cfg w =
     (case getClient env cfg w of
        (w1, Inl err) \<Rightarrow> (w1, Inl err)
      | (w1, Inr c) \<Rightarrow>
          (case client_listTools env w1 of
             (w2, Inl err) \<Rightarrow> (w2, Inl err)
           | (w2, Inr tools) \<Rightarrow> (w2, convertTools tools)))"

fun fragment_text :: "fragment \<Rightarrow> jsstring option" where
  "fragment_text (TextContent t) = Some t"
| "fragment_text (OtherContent k) = None"

definition textContent :: "fragment list \<Rightarrow> jsstring" where
  "textContent cs = js_join [10, 10] (List.map_filter fragment_text cs)"

definition callMcpTool ::
  "env \<Rightarrow> config \<Rightarrow> world \<Rightarrow> jsstring \<Rightarrow> args \<Rightarrow> world \<times> (error + ToolResult)" where
  "callMcpTool env cfg w name a =
     (case getClient env cfg w of
        (w1, Inl err) \<Rightarrow> (w1, Inl err)
      | (w1, Inr c) \<Rightarrow>
          (case client_callTool env w1 name a of
             (w2, Inl err) \<Rightarrow> (w2, Inl err)
           | (w2, Inr r) \<Rightarrow>
               (w2, Inr \<lparr>content =
                            (if textContent (result_content r) \<noteq> [] then textContent (result_content r)
                             else JSON_stringify cfg (result_content r)),
                         isError = result_isError r\<rparr>)))"

definition closeClient :: "world \<Rightarrow> world" where
  "closeClient w = (if client w then w\<lparr>client := False\<rparr> else w)"

section \<open>Answer agent (tool-calling \<^verbatim>\<open>generateAnswer\<close>)\<close>

definition getModel :: "config \<Rightarrow> world \<Rightarrow> world \<times> (error + unit)" where
  "getModel cfg w =
     (if GEMINI_API_KEY cfg = [] then (w, Inl (Error (ascii ''GEMINI_API_KEY is not set'')))
      else (w\<lparr>genAI := True\<rparr>, Inr ()))"

text \<open>One pass of the \<^verbatim>\<open>for\<close> loop over the requested calls: call the tool, push one part.\<close>

definition tool_part :: "FunctionCall \<Rightarrow> error + ToolResult \<Rightarrow> functionResponse" where
  "tool_part call r =
     (case r of
        Inr toolResult \<Rightarrow> \<lparr>fr_name = call_name call, fr_response = Content (content toolResult)\<rparr>
      | Inl err \<Rightarrow> \<lparr>fr_name = call_name call, fr_response = ErrorMessage (message_of err)\<rparr>)"

fun exec_tools ::
  "env \<Rightarrow> config \<Rightarrow> world \<Rightarrow> FunctionCall list \<Rightarrow> functionResponse list
     \<Rightarrow> world \<times> functionResponse list" where
  "exec_tools env cfg w [] parts = (w, parts)"
| "exec_tools env cfg w (call # calls) parts =
     (case callMcpTool env cfg w (call_name call) (call_args call) of
        (w', r) \<Rightarrow> exec_tools env cfg w' calls (parts @ [tool_part call r]))"

text \<open>
  The \<^verbatim>\<open>while (iteration < MAX_ITERATIONS)\<close> loop; \<open>result\<close> is the last answer of the
  model. It ends with the answer it could not or need not continue from, or with the
  error a send threw.
\<close>

function tool_loop ::
  "env \<Rightarrow> config \<Rightarrow> FunctionDeclaration list \<Rightarrow> world \<Rightarrow> nat \<Rightarrow> response
     \<Rightarrow> world \<times> (error + response)" where
  "tool_loop env cfg tools w iteration result =
     (if iteration < MAX_ITERATIONS then
        (case functionCalls result of
           Inl err \<Rightarrow> (w, Inl err)
         | Inr (Some (call # calls)) \<Rightarrow>
             (case exec_tools env cfg w (call # calls) [] of
                (w1, parts) \<Rightarrow>
                  (case sendMessage env tools w1 (Parts parts) of
                     (w2, Inl err) \<Rightarrow> (w2, Inl err)
                   | (w2, Inr result') \<Rightarrow> tool_loop env cfg tools w2 (iteration + 1) result'))
         | _ \<Rightarrow> (w, Inr result))
      else (w, Inr result))"
  by pat_completeness auto
termination
  by (relation "measure (\<lambda>(env, cfg, tools, w, iteration, result). MAX_ITERATIONS - iteration)")
     auto

declare tool_loop.simps [simp del]

definition generateAnswer_try ::
  "env \<Rightarrow> config \<Rightarrow> world \<Rightarrow> jsstring \<Rightarrow> world \<times> (error + GenerateAnswerResult)" where
  "generateAnswer_try env cfg w question =
     (case getGeminiTools env cfg w of
        (w1, Inl err) \<Rightarrow> (w1, Inl err)
      | (w1, Inr toolDeclarations) \<Rightarrow>
          (case getModel cfg w1 of
             (w2, Inl err) \<Rightarrow> (w2, Inl err)
           | (w2, Inr m) \<Rightarrow>
               (case sendMessage env toolDeclarations w2 (Text question) of
                  (w3, Inl err) \<Rightarrow> (w3, Inl err)
                | (w3, Inr result) \<Rightarrow>
                    (case tool_loop env cfg toolDeclarations w3 0 result of
                       (w4, Inl err) \<Rightarrow> (w4, Inl err)
                     | (w4, Inr final) \<Rightarrow>
                         (case response_text final of
                            Inl err \<Rightarrow> (w4, Inl err)
                          | Inr a \<Rightarrow> (w4, Inr \<lparr>answer = a, success = True\<rparr>))))))"

definition generateAnswer ::
  "env \<Rightarrow> config \<Rightarrow> world \<Rightarrow> jsstring \<Rightarrow> world \<times> (error + GenerateAnswerResult)" where
  "generateAnswer env cfg w question =
     (if GEMINI_API_KEY cfg = [] then
        (w, Inr \<lparr>answer = CONFIG_ERROR_ANSWER, success = False\<rparr>)
      else
        (case generateAnswer_try env cfg w question of
           (w', Inr r) \<Rightarrow> (w', Inr r)
         | (w', Inl err) \<Rightarrow> (w', Inr \<lparr>answer = AGENT_ERROR_ANSWER, success = False\<rparr>)))"

section \<open>Single-shot \<^verbatim>\<open>generateAnswer\<close> (question and passages)\<close>

definition generateAnswer_single ::
  "env \<Rightarrow> config \<Rightarrow> world \<Rightarrow> jsstring \<Rightarrow> jsstring
     \<Rightarrow> world \<times> (error + GenerateAnswerResult)" where
  "generateAnswer_single env cfg w question passages =
     (if GEMINI_API_KEY cfg = [] then
        (w, Inr \<lparr>answer = CONFIG_ERROR_ANSWER, success = False\<rparr>)
      else
        (case getModel cfg w of
           (w1, Inl err) \<Rightarrow> (w1, Inl err)
         | (w1, Inr m) \<Rightarrow>
             (case sendMessage env [] w1 (Text (userPrompt question passages)) of
                (w2, Inl err) \<Rightarrow> (w2, Inr \<lparr>answer = API_ERROR_ANSWER, success = False\<rparr>)
              | (w2, Inr result) \<Rightarrow>
                  (case response_text result of
                     Inl err \<Rightarrow> (w2, Inr \<lparr>answer = API_ERROR_ANSWER, success = False\<rparr>)
                   | Inr a \<Rightarrow>
                       if a = [] then (w2, Inr \<lparr>answer = EMPTY_RESPONSE_ANSWER, success = False\<rparr>)
                       else (w2, Inr \<lparr>answer = a, success = True\<rparr>)))))"

section \<open>Delivery handler (\<^verbatim>\<open>POST /pubsub/push\<close>)\<close>

definition OK_RESPONSE :: http_response where
  "OK_RESPONSE = \<lparr>status = 200, body = ascii ''OK''\<rparr>"

text \<open>The \<^verbatim>\<open>try\<close> block of the handler.\<close>

definition process_event ::
  "env \<Rightarrow> config \<Rightarrow> world \<Rightarrow> SlackEvent \<Rightarrow> world \<times> (error + http_response)" where
  "process_event env cfg w event =
     (let question = extract_question (event_text event) in
      if question = [] then
        (case replyToSlack env w (channel event) (thread_ts event) HELP_MESSAGE of
           (w1, Inl err) \<Rightarrow> (w1, Inl err)
         | (w1, Inr u) \<Rightarrow>
             (case markEventProcessed env w1 (event_id event) (channel event) (ts event) of
                (w2, Inl err) \<Rightarrow> (w2, Inl err)
              | (w2, Inr u') \<Rightarrow> (w2, Inr OK_RESPONSE)))
      else
        (case generateAnswer env cfg w question of
           (w1, Inl err) \<Rightarrow> (w1, Inl err)
         | (w1, Inr geminiResult) \<Rightarrow>
             (case replyToSlack env w1 (channel event) (thread_ts event) (answer geminiResult) of
                (w2, Inl err) \<Rightarrow> (w2, Inl err)
              | (w2, Inr u) \<Rightarrow>
                  (case markEventProcessed env w2 (event_id event) (channel event) (ts event) of
                     (w3, Inl err) \<Rightarrow> (w3, Inl err)
                   | (w3, Inr u') \<Rightarrow> (w3, Inr OK_RESPONSE)))))"

text \<open>
  The endpoint. \<open>Inl\<close> would be a rejection that escapes the handler (no response
  sent); \<open>Inr\<close> is the response.
\<close>

definition pubsub_push ::
  "env \<Rightarrow> config \<Rightarrow> world \<Rightarrow> PubSubMessage \<Rightarrow> world \<times> (error + http_response)" where
  "pubsub_push env cfg w m =
     (case m of
        NoData \<Rightarrow> (w, Inr \<lparr>status = 400, body = ascii ''Invalid message''\<rparr>)
      | Undecodable \<Rightarrow> (w, Inr \<lparr>status = 400, body = ascii ''Invalid message encoding''\<rparr>)
      | Data event \<Rightarrow>
          (case isEventProcessed env w (event_id event) of
             (w1, Inl err) \<Rightarrow> (w1, Inl err)
           | (w1, Inr processed) \<Rightarrow>
               if processed then (w1, Inr \<lparr>status = 200, body = ascii ''Already processed''\<rparr>)
               else
                 (case process_event env cfg w1 event of
                    (w2, Inr r) \<Rightarrow> (w2, Inr r)
                  | (w2, Inl err) \<Rightarrow>
                      (w2, Inr \<lparr>status = 500, body = ascii ''Processing failed''\<rparr>))))"

section \<open>The life of the process\<close>

text \<open>
  What the process does after start-up, one operation after the other: it handles
  deliveries, and the functions the two modules export may be called. Only
  \<^verbatim>\<open>closeClient\<close> is left out: nothing in the worker calls it, and it is the one
  operation that resets the module variable \<^verbatim>\<open>client\<close>.
\<close>

datatype operation =
    Deliver PubSubMessage
  | GenerateAnswer jsstring
  | GenerateAnswerSingle jsstring jsstring
  | GetGeminiTools
  | CallMcpTool jsstring args

fun run_operation :: "env \<Rightarrow> config \<Rightarrow> world \<Rightarrow> operation \<Rightarrow> world" where
  "run_operation env cfg w (Deliver m) = fst (pubsub_push env cfg w m)"
| "run_operation env cfg w (GenerateAnswer q) = fst (generateAnswer env cfg w q)"
| "run_operation env cfg w (GenerateAnswerSingle q p) = fst (generateAnswer_single env cfg w q p)"
| "run_operation env cfg w GetGeminiTools = fst (getGeminiTools env cfg w)"
| "run_operation env cfg w (CallMcpTool n a) = fst (callMcpTool env cfg w n a)"

fun run_operations :: "env \<Rightarrow> config \<Rightarrow> world \<Rightarrow> operation list \<Rightarrow> world" where
  "run_operations env cfg w [] = w"
| "run_operations env cfg w (x # xs) = run_operations env cfg (run_operation env cfg w x) xs"

section \<open>Reading the log\<close>

fun is_model_call :: "effect \<Rightarrow> bool" where
  "is_model_call (GeminiSend tools m) = True"
| "is_model_call e = False"

fun is_tool_batch_send :: "effect \<Rightarrow> bool" where
  "is_tool_batch_send (GeminiSend tools (Parts ps)) = True"
| "is_tool_batch_send e = False"

fun is_tool_call :: "effect \<Rightarrow> bool" where
  "is_tool_call (McpCallTool n a) = True"
| "is_tool_call e = False"

fun is_mcp_effect :: "effect \<Rightarrow> bool" where
  "is_mcp_effect McpConnect = True"
| "is_mcp_effect McpListTools = True"
| "is_mcp_effect (McpCallTool n a) = True"
| "is_mcp_effect e = False"

fun is_agent_effect :: "effect \<Rightarrow> bool" where
  "is_agent_effect McpConnect = True"
| "is_agent_effect McpListTools = True"
| "is_agent_effect (McpCallTool n a) = True"
| "is_agent_effect (GeminiSend tools m) = True"
| "is_agent_effect e = False"

fun is_marker_write :: "effect \<Rightarrow> bool" where
  "is_marker_write (FirestoreSet i m) = True"
| "is_marker_write e = False"

fun is_reply :: "effect \<Rightarrow> bool" where
  "is_reply (SlackPost c t x) = True"
| "is_reply e = False"

definition model_calls :: "entry list \<Rightarrow> nat" where
  "model_calls tr = length (filter (\<lambda>x. is_model_call (fst x)) tr)"

definition tool_batches :: "entry list \<Rightarrow> nat" where
  "tool_batches tr = length (filter (\<lambda>x. is_tool_batch_send (fst x)) tr)"

definition tool_calls :: "entry list \<Rightarrow> nat" where
  "tool_calls tr = length (filter (\<lambda>x. is_tool_call (fst x)) tr)"

definition new_entries :: "world \<Rightarrow> world \<Rightarrow> entry list" where
  "new_entries w w' = drop (length (trace w)) (trace w')"

definition marker_writes :: "entry list \<Rightarrow> entry list" where
  "marker_writes tr = filter (\<lambda>x. is_marker_write (fst x)) tr"

definition replies :: "entry list \<Rightarrow> entry list" where
  "replies tr = filter (\<lambda>x. is_reply (fst x)) tr"

text \<open>
  \<open>extends P w w'\<close>: from \<open>w\<close> to \<open>w'\<close> the stored markers are the same and the log
  grew by effects that all satisfy \<open>P\<close>.
\<close>

definition extends :: "(effect \<Rightarrow> bool) \<Rightarrow> world \<Rightarrow> world \<Rightarrow> bool" where
  "extends P w w' =
     (processed_events w' = processed_events w
      \<and> (\<exists>ext. trace w' = trace w @ ext \<and> list_all (\<lambda>x. P (fst x)) ext))"

text \<open>
  \<open>answered_by env tools i w res\<close>: the last logged effect of \<open>w\<close> is a successful
  send to the model, \<open>res\<close> is the model's answer to it, and after the first iteration
  that send carried tool results.
\<close>

definition answered_by ::
  "env \<Rightarrow> FunctionDeclaration list \<Rightarrow> nat \<Rightarrow> world \<Rightarrow> response \<Rightarrow> bool" where
  "answered_by env tools i w res =
     (\<exists>tr m. trace w = tr @ [(GeminiSend tools m, True)] \<and> gemini_send env tr tools m = Inr res
        \<and> (0 < i \<longrightarrow> (\<exists>ps. m = Parts ps)))"

text \<open>
  The outcomes of the adapter invocations of one batch, in request order, each started
  in the state the previous one left.
\<close>

fun tool_outcomes :: "env \<Rightarrow> config \<Rightarrow> world \<Rightarrow> FunctionCall list \<Rightarrow> (error + ToolResult) list" where
  "tool_outcomes env cfg w [] = []"
| "tool_outcomes env cfg w (call # calls) =
     (case callMcpTool env cfg w (call_name call) (call_args call) of
        (w', r) \<Rightarrow> r # tool_outcomes env cfg w' calls)"

definition catalog_fetches :: "entry list \<Rightarrow> nat" where
  "catalog_fetches tr = length (filter (\<lambda>x. fst x = McpListTools) tr)"

definition connects :: "entry list \<Rightarrow> nat" where
  "connects tr = length (filter (\<lambda>x. fst x = McpConnect) tr)"

text \<open>
  \<open>connected_as w w'\<close>: in \<open>w'\<close> the client is set and no connection was opened
  since \<open>w\<close>.
\<close>

definition connected_as :: "world \<Rightarrow> world \<Rightarrow> bool" where
  "connected_as w w' = (client w' \<and> connects (trace w') = connects (trace w))"

definition ALREADY_PROCESSED :: http_response where
  "ALREADY_PROCESSED = \<lparr>status = 200, body = ascii ''Already processed''\<rparr>"

definition PROCESSING_FAILED :: http_response where
  "PROCESSING_FAILED = \<lparr>status = 500, body = ascii ''Processing failed''\<rparr>"

section \<open>Example collaborators, configurations and events\<close>

definition search_call :: FunctionCall where
  "search_call = \<lparr>call_name = ascii ''search'', call_args = [(ascii ''query'', ascii ''OpenRTB'')]\<rparr>"

definition search_result :: CallToolResult where
  "search_result = \<lparr>result_content = [TextContent (ascii ''doc'')], result_isError = None\<rparr>"

definition wants_search :: response where
  "wants_search = \<lparr>functionCalls = Inr (Some [search_call]), response_text = Inr []\<rparr>"

definition final_answer :: response where
  "final_answer = \<lparr>functionCalls = Inr None, response_text = Inr (ascii ''answer'')\<rparr>"

text \<open>Everything works; the model answers at once.\<close>

definition env_answers :: env where
  "env_answers =
     \<lparr>firestore_get_error = (\<lambda>tr i. None),
      firestore_set_error = (\<lambda>tr i m. None),
      timestamp_now = (\<lambda>tr. 1000),
      slack_post_error = (\<lambda>tr c t x. None),
      mcp_connect_error = (\<lambda>tr. None),
      mcp_list_tools = (\<lambda>tr. Inr []),
      mcp_call_tool = (\<lambda>tr n a. Inr search_result),
      gemini_send = (\<lambda>tr tools m. Inr final_answer)\<rparr>"

text \<open>The model asks for another search on every turn.\<close>

definition env_tools_forever :: env where
  "env_tools_forever = env_answers\<lparr>gemini_send := (\<lambda>tr tools m. Inr wants_search)\<rparr>"

text \<open>The reply sink is unreachable.\<close>

definition env_slack_down :: env where
  "env_slack_down = env_answers\<lparr>slack_post_error := (\<lambda>tr c t x. Some (Error (ascii ''down'')))\<rparr>"

text \<open>Firestore rejects every read and every write.\<close>

definition env_ledger_down :: env where
  "env_ledger_down =
     env_answers\<lparr>firestore_get_error := (\<lambda>tr i. Some (Error (ascii ''unavailable''))),
                  firestore_set_error := (\<lambda>tr i m. Some (Error (ascii ''unavailable'')))\<rparr>"

text \<open>
  The catalogue has one tool at the first fetch and none afterwards; the first tool
  call of the process drops its connection, later ones succeed.
\<close>

definition search_tool :: mcp_tool where
  "search_tool =
     \<lparr>tool_name = ascii ''search'', tool_description = Some (ascii ''Search the documents''),
      inputSchema = Some (Schema (Some (TypeString (ascii ''object''))) None None
        (Some [(ascii ''query'',
                Schema (Some (TypeString (ascii ''String''))) None None None None None None)])
        (Some [ascii ''query'']) None None)\<rparr>"

definition search_declaration :: FunctionDeclaration where
  "search_declaration =
     \<lparr>fd_name = ascii ''search'', fd_description = ascii ''Search the documents'',
      fd_parameters = Some (GSchema OBJECT None None
        (Some [(ascii ''query'', GSchema STRING None None None None None None)])
        (Some [ascii ''query'']) None None)\<rparr>"

text \<open>A tool whose schema gives a property the type \<^verbatim>\<open>["string", "null"]\<close>.\<close>

definition union_tool :: mcp_tool where
  "union_tool =
     \<lparr>tool_name = ascii ''lookup'', tool_description = None,
      inputSchema = Some (Schema (Some (TypeString (ascii ''object''))) None None
        (Some [(ascii ''id'', Schema (Some TypeOther) None None None None None None)])
        None None None)\<rparr>"

definition env_catalog_changes :: env where
  "env_catalog_changes =
     env_answers\<lparr>mcp_list_tools :=
       (\<lambda>tr. if catalog_fetches tr = 0 then Inr [search_tool] else Inr [])\<rparr>"

definition env_flaky_tool :: env where
  "env_flaky_tool =
     env_answers\<lparr>mcp_call_tool :=
       (\<lambda>tr n a. if tool_calls tr = 0 then Inl (Error (ascii ''connection dropped''))
                  else Inr search_result)\<rparr>"

definition wants_three :: response where
  "wants_three = \<lparr>functionCalls = Inr (Some [search_call, search_call, search_call]),
                   response_text = Inr []\<rparr>"

definition three_parts :: "functionResponse list" where
  "three_parts =
     [\<lparr>fr_name = ascii ''search'', fr_response = ErrorMessage (ascii ''connection dropped'')\<rparr>,
      \<lparr>fr_name = ascii ''search'', fr_response = Content (ascii ''doc'')\<rparr>,
      \<lparr>fr_name = ascii ''search'', fr_response = Content (ascii ''doc'')\<rparr>]"

definition cfg_ok :: config where
  "cfg_ok = \<lparr>GEMINI_API_KEY = ascii ''key'', MCP_URL_valid = True,
              JSON_stringify = (\<lambda>fs. ascii ''[]'')\<rparr>"

definition cfg_nokey :: config where
  "cfg_nokey = cfg_ok\<lparr>GEMINI_API_KEY := []\<rparr>"

definition w_init :: world where
  "w_init = \<lparr>trace = [], processed_events = Map.empty, client = False, genAI = False\<rparr>"

definition ev_question :: SlackEvent where
  "ev_question =
     \<lparr>event_id = ascii ''E1'', event_time = 0, team_id = ascii ''T'', channel = ascii ''C1'',
      user = ascii ''U1'', event_text = ascii ''<@BOT> OpenRTB'', ts = ascii ''1.0'',
      thread_ts = ascii ''T1''\<rparr>"

definition ev_mention_only :: SlackEvent where
  "ev_mention_only = ev_question\<lparr>event_id := ascii ''E2'', event_text := ascii '' <@BOT> ''\<rparr>"

text \<open>States reached by the example deliveries.\<close>

definition w_listed :: world where
  "w_listed = w_init\<lparr>trace := [(McpConnect, True), (McpListTools, True)], client := True\<rparr>"

definition example_marker :: marker where
  "example_marker = \<lparr>processed_at = 1000, marker_channel = ascii ''C1'', marker_ts = ascii ''1.0''\<rparr>"

definition answered_prefix :: "entry list" where
  "answered_prefix =
     [(FirestoreGet (ascii ''E1''), True), (McpConnect, True), (McpListTools, True),
      (GeminiSend [] (Text (ascii ''OpenRTB'')), True),
      (SlackPost (ascii ''C1'') (ascii ''T1'') (ascii ''answer''), True)]"

definition w_answered :: world where
  "w_answered =
     \<lparr>trace = answered_prefix @ [(FirestoreSet (ascii ''E1'') example_marker, True)],
      processed_events = [ascii ''E1'' \<mapsto> example_marker], client = True, genAI = True\<rparr>"

definition w_reply_failed :: world where
  "w_reply_failed =
     \<lparr>trace = [(FirestoreGet (ascii ''E1''), True), (McpConnect, True), (McpListTools, True),
               (GeminiSend [] (Text (ascii ''OpenRTB'')), True),
               (SlackPost (ascii ''C1'') (ascii ''T1'') (ascii ''answer''), False)],
      processed_events = Map.empty, client = True, genAI = True\<rparr>"

definition w_help_failed :: world where
  "w_help_failed =
     \<lparr>trace = [(FirestoreGet (ascii ''E2''), True),
               (SlackPost (ascii ''C1'') (ascii ''T1'') HELP_MESSAGE, False)],
      processed_events = Map.empty, client = False, genAI = False\<rparr>"

definition w_help_sent :: world where
  "w_help_sent =
     \<lparr>trace = [(FirestoreGet (ascii ''E2''), True),
               (SlackPost (ascii ''C1'') (ascii ''T1'') HELP_MESSAGE, True),
               (FirestoreSet (ascii ''E2'') example_marker, True)],
      processed_events = [ascii ''E2'' \<mapsto> example_marker], client = False, genAI = False\<rparr>"

section \<open>Frame lemmas: what each operation adds to the log\<close>

lemma extends_refl: "extends P w w"
  by (simp add: extends_def)

lemma extends_trans: "extends P w w1 \<Longrightarrow> extends P w1 w2 \<Longrightarrow> extends P w w2"
  by (auto simp: extends_def)

lemma extends_mono: "extends P w w' \<Longrightarrow> (\<And>e. P e \<Longrightarrow> Q e) \<Longrightarrow> extends Q w w'"
  by (auto simp: extends_def list_all_iff)

lemma extends_log: "P e \<Longrightarrow> extends P w (log_effect w e ok)"
  by (simp add: extends_def log_effect_def)

lemma extends_log_client: "P e \<Longrightarrow> extends P w (log_effect (w\<lparr>client := c\<rparr>) e ok)"
  by (simp add: extends_def log_effect_def)

lemma getClient_extends: "getClient env cfg w = (w', r) \<Longrightarrow> extends is_mcp_effect w w'"
  by (auto simp: getClient_def client_connect_def extends_refl extends_log_client
      split: if_splits option.splits)

lemma callMcpTool_extends: "callMcpTool env cfg w n a = (w', r) \<Longrightarrow> extends is_mcp_effect w w'"
  by (auto simp: callMcpTool_def client_callTool_def extends_log
      split: prod.splits sum.splits
      dest!: getClient_extends intro: extends_trans)

lemma exec_tools_extends:
  "exec_tools env cfg w calls parts = (w', parts') \<Longrightarrow> extends is_mcp_effect w w'"
proof (induction calls arbitrary: w parts)
  case Nil
  then show ?case by (simp add: extends_refl)
next
  case (Cons c cs)
  then show ?case
    by (auto split: prod.splits dest!: callMcpTool_extends intro: extends_trans)
qed


lemma mcp_effect_agent: "is_mcp_effect e \<Longrightarrow> is_agent_effect e"
  by (cases e) simp_all

lemma sendMessage_extends: "sendMessage env tools w m = (w', r) \<Longrightarrow> extends is_agent_effect w w'"
  by (auto simp: sendMessage_def extends_log split: sum.splits)

lemma tool_loop_extends:
  "tool_loop env cfg tools w i res = (w', r) \<Longrightarrow> extends is_agent_effect w w'"
proof (induction env cfg tools w i res rule: tool_loop.induct)
  case (1 env cfg tools w iteration result)
  show ?case
  proof (cases "iteration < MAX_ITERATIONS \<and> (\<exists>c cs. functionCalls result = Inr (Some (c # cs)))")
    case False
    with "1.prems" show ?thesis
      by (auto simp: tool_loop.simps extends_refl
          split: sum.splits option.splits list.splits if_splits)
  next
    case True
    then obtain c cs where it: "iteration < MAX_ITERATIONS" and fc: "functionCalls result = Inr (Some (c # cs))"
      by blast
    obtain w1 parts where ex: "exec_tools env cfg w (c # cs) [] = (w1, parts)"
      by (cases "exec_tools env cfg w (c # cs) []")
    obtain w2 r2 where sm: "sendMessage env tools w1 (Parts parts) = (w2, r2)"
      by (cases "sendMessage env tools w1 (Parts parts)")
    have e1: "extends is_agent_effect w w1"
      using exec_tools_extends [OF ex] mcp_effect_agent by (rule extends_mono)
    have e2: "extends is_agent_effect w1 w2"
      using sm by (rule sendMessage_extends)
    show ?thesis
    proof (cases r2)
      case (Inl err)
      with "1.prems" it fc ex sm have "w' = w2" by (simp add: tool_loop.simps)
      with e1 e2 show ?thesis by (auto intro: extends_trans)
    next
      case (Inr res')
      with "1.prems" it fc ex sm have "tool_loop env cfg tools w2 (iteration + 1) res' = (w', r)"
        by (simp add: tool_loop.simps)
      then have "extends is_agent_effect w2 w'"
        by (rule "1.IH" [OF it fc refl refl ex [symmetric] sm [symmetric] Inr])
      with e1 e2 show ?thesis by (auto intro: extends_trans)
    qed
  qed
qed


lemma getGeminiTools_extends_mcp:
  "getGeminiTools env cfg w = (w', r) \<Longrightarrow> extends is_mcp_effect w w'"
proof -
  assume g: "getGeminiTools env cfg w = (w', r)"
  obtain w1 r1 where c: "getClient env cfg w = (w1, r1)"
    by (cases "getClient env cfg w")
  have e1: "extends is_mcp_effect w w1"
    using c by (rule getClient_extends)
  from g c have "extends is_mcp_effect w1 w'"
    by (auto simp: getGeminiTools_def client_listTools_def extends_refl extends_log
        split: sum.splits)
  with e1 show ?thesis by (rule extends_trans)
qed

lemma getGeminiTools_extends:
  "getGeminiTools env cfg w = (w', r) \<Longrightarrow> extends is_agent_effect w w'"
  using getGeminiTools_extends_mcp mcp_effect_agent by (rule extends_mono)

lemma getModel_extends: "getModel cfg w = (w', r) \<Longrightarrow> extends P w w'"
  by (auto simp: getModel_def extends_def split: if_splits)

lemma generateAnswer_try_extends:
  "generateAnswer_try env cfg w q = (w', r) \<Longrightarrow> extends is_agent_effect w w'"
  unfolding generateAnswer_try_def
  by (auto split: prod.splits sum.splits
      dest!: getGeminiTools_extends getModel_extends [where P = is_agent_effect]
        sendMessage_extends tool_loop_extends
      intro: extends_trans)

lemma generateAnswer_extends:
  "generateAnswer env cfg w q = (w', r) \<Longrightarrow> extends is_agent_effect w w'"
  by (auto simp: generateAnswer_def extends_refl split: if_splits prod.splits sum.splits
      dest: generateAnswer_try_extends)

lemma generateAnswer_returns: "\<exists>w' a. generateAnswer env cfg w q = (w', Inr a)"
  by (auto simp: generateAnswer_def split: prod.splits sum.splits)


section \<open>Evaluation of the examples\<close>

lemmas example_defs = env_answers_def env_tools_forever_def env_slack_down_def cfg_ok_def
  cfg_nokey_def w_init_def ev_question_def ev_mention_only_def search_call_def search_result_def
  wants_search_def final_answer_def

lemmas call_defs = firestore_doc_get_def firestore_doc_set_def slack_postMessage_def
  client_connect_def client_listTools_def client_callTool_def sendMessage_def log_effect_def

lemmas worker_defs = isEventProcessed_def markEventProcessed_def replyToSlack_def getClient_def
  getGeminiTools_def callMcpTool_def getModel_def generateAnswer_try_def generateAnswer_def
  process_event_def pubsub_push_def toDeclaration_def convertTools_def NOT_A_FUNCTION_def tool_part_def textContent_def
  extract_question_def trim_def mention_at_def is_id_char_def is_js_whitespace_def ascii_def
  MAX_ITERATIONS_def OK_RESPONSE_def ALREADY_PROCESSED_def PROCESSING_FAILED_def
  tool_loop.simps

lemma answered_run:
  "pubsub_push env_answers cfg_ok w_init (Data ev_question) = (w_answered, Inr OK_RESPONSE)"
  by (simp add: w_answered_def answered_prefix_def example_marker_def example_defs call_defs worker_defs)

lemma reply_failed_run:
  "pubsub_push env_slack_down cfg_ok w_init (Data ev_question)
     = (w_reply_failed, Inr PROCESSING_FAILED)"
  by (simp add: w_reply_failed_def example_defs call_defs worker_defs)

section \<open>Ledger and delivery handler\<close>

lemma isEventProcessed_result:
  "isEventProcessed env w i =
     (log_effect w (FirestoreGet i) (firestore_get_error env (trace w) i = None),
      Inr (firestore_get_error env (trace w) i = None \<and> processed_events w i \<noteq> None))"
  by (simp add: isEventProcessed_def firestore_doc_get_def split: option.splits)

lemma markEventProcessed_returns: "snd (markEventProcessed env w i ch t) = Inr ()"
  by (simp add: markEventProcessed_def split: prod.splits sum.splits)

lemma markEventProcessed_no_raise: "markEventProcessed env w i ch t \<noteq> (w', Inl err)"
  by (simp add: markEventProcessed_def split: prod.splits sum.splits)

lemma generateAnswer_no_raise: "generateAnswer env cfg w q \<noteq> (w', Inl err)"
  by (auto simp: generateAnswer_def split: prod.splits sum.splits)

lemma process_event_raises_only_on_dispatch:
  "process_event env cfg w ev = (w', Inl err) \<Longrightarrow>
     \<exists>tr txt. trace w' = tr @ [(SlackPost (channel ev) (thread_ts ev) txt, False)]"
  by (auto simp: process_event_def Let_def replyToSlack_def slack_postMessage_def log_effect_def
      markEventProcessed_no_raise generateAnswer_no_raise
      split: if_splits prod.splits sum.splits option.splits)

lemma first_handling_leaves_marker:
  assumes run: "pubsub_push env cfg w (Data ev) = (w1, Inr r1)"
    and ok: "status r1 = 200"
    and store: "\<forall>tr m. firestore_set_error env tr (event_id ev) m = None"
  shows "processed_events w1 (event_id ev) \<noteq> None"
proof (cases "firestore_get_error env (trace w) (event_id ev) = None \<and> processed_events w (event_id ev) \<noteq> None")
  case True
  with run show ?thesis
    by (auto simp: pubsub_push_def isEventProcessed_result log_effect_def)
next
  case False
  define w0 where "w0 = log_effect w (FirestoreGet (event_id ev))
        (firestore_get_error env (trace w) (event_id ev) = None)"
  from False run ok have p: "process_event env cfg w0 ev = (w1, Inr r1)"
    by (auto simp: pubsub_push_def isEventProcessed_result w0_def split: prod.splits sum.splits)
  with store show ?thesis
    by (auto simp: process_event_def Let_def markEventProcessed_def firestore_doc_set_def
        log_effect_def split: if_splits prod.splits sum.splits option.splits)
qed

text \<open>
  Claim C1. When the ledger reports the event id as processed, the handler answers
  200 \<^verbatim>\<open>Already processed\<close> at once: the state after the call differs from the state
  before only by the logged ledger read, so no reply is dispatched, no model or tool
  call is made and no marker is written. Hence, after a first handling that returned
  200 and whose marker the store accepted, a redelivery whose ledger read succeeds finds
  the event reported as processed and adds nothing but that read: the replies in the
  log are the same as before.
\<close>

theorem processed_event_is_acknowledged_without_effects:
  "(snd (isEventProcessed env w (event_id ev)) = Inr True \<longrightarrow>
      pubsub_push env cfg w (Data ev)
        = (w\<lparr>trace := trace w @ [(FirestoreGet (event_id ev), True)]\<rparr>, Inr ALREADY_PROCESSED))
   \<and> (pubsub_push env cfg w (Data ev) = (w1, Inr r1) \<and> status r1 = 200
        \<and> (\<forall>tr m. firestore_set_error env tr (event_id ev) m = None)
        \<and> firestore_get_error env (trace w1) (event_id ev) = None \<longrightarrow>
      snd (isEventProcessed env w1 (event_id ev)) = Inr True
      \<and> pubsub_push env cfg w1 (Data ev)
        = (w1\<lparr>trace := trace w1 @ [(FirestoreGet (event_id ev), True)]\<rparr>, Inr ALREADY_PROCESSED)
      \<and> replies (trace (fst (pubsub_push env cfg w1 (Data ev)))) = replies (trace w1))"
proof -
  have dup: "pubsub_push env cfg v (Data ev)
        = (v\<lparr>trace := trace v @ [(FirestoreGet (event_id ev), True)]\<rparr>, Inr ALREADY_PROCESSED)"
    if "snd (isEventProcessed env v (event_id ev)) = Inr True" for v
    using that
    by (auto simp: pubsub_push_def isEventProcessed_result log_effect_def ALREADY_PROCESSED_def)
  have again: "snd (isEventProcessed env w1 (event_id ev)) = Inr True"
    if "pubsub_push env cfg w (Data ev) = (w1, Inr r1)" "status r1 = 200"
      "\<forall>tr m. firestore_set_error env tr (event_id ev) m = None"
      "firestore_get_error env (trace w1) (event_id ev) = None"
    using first_handling_leaves_marker [OF that(1,2,3)] that(4)
    by (simp add: isEventProcessed_result)
  have same: "replies (trace (fst (pubsub_push env cfg v (Data ev)))) = replies (trace v)"
    if "snd (isEventProcessed env v (event_id ev)) = Inr True" for v
    by (simp add: dup [OF that] replies_def)
  from dup again same show ?thesis by blast
qed

theorem processed_event_is_acknowledged_without_effects_witness:
  "pubsub_push env_answers cfg_ok w_init (Data ev_question) = (w_answered, Inr OK_RESPONSE)
   \<and> status OK_RESPONSE = 200
   \<and> snd (isEventProcessed env_answers w_answered (event_id ev_question)) = Inr True
   \<and> pubsub_push env_answers cfg_ok w_answered (Data ev_question)
       = (w_answered\<lparr>trace := trace w_answered @ [(FirestoreGet (event_id ev_question), True)]\<rparr>,
          Inr ALREADY_PROCESSED)
   \<and> replies (trace (fst (pubsub_push env_answers cfg_ok w_answered (Data ev_question))))
       = replies (trace w_answered)"
proof -
  have ok: "status OK_RESPONSE = 200"
    by (simp add: OK_RESPONSE_def)
  have store: "\<forall>tr m. firestore_set_error env_answers tr (event_id ev_question) m = None"
    by (simp add: env_answers_def)
  have rd: "firestore_get_error env_answers (trace w_answered) (event_id ev_question) = None"
    by (simp add: env_answers_def)
  from processed_event_is_acknowledged_without_effects
    [of env_answers w_init ev_question cfg_ok w_answered OK_RESPONSE]
    answered_run ok store rd
  show ?thesis by blast
qed

text \<open>
  Claim C6. The ledger operations never raise: \<open>isEventProcessed\<close> always returns a
  boolean, and it is \<open>False\<close> when the Firestore read fails; \<open>markEventProcessed\<close>
  always returns normally, also when the Firestore write fails. At the level of the
  handler, every delivery is answered, and a 500 is only ever caused by a failed reply
  dispatch (the last logged effect), never by the ledger.
\<close>

theorem ledger_failures_are_not_propagated:
  "(\<exists>b. snd (isEventProcessed env w eventId) = Inr b)
   \<and> (firestore_get_error env (trace w) eventId \<noteq> None \<longrightarrow>
        snd (isEventProcessed env w eventId) = Inr False)
   \<and> snd (markEventProcessed env w eventId ch t) = Inr ()
   \<and> (\<exists>r. snd (pubsub_push env cfg w m) = Inr r
        \<and> (status r = 500 \<longrightarrow>
             (\<exists>tr c th txt. trace (fst (pubsub_push env cfg w m)) = tr @ [(SlackPost c th txt, False)])))"
proof -
  have a: "\<exists>b. snd (isEventProcessed env w eventId) = Inr b"
    by (simp add: isEventProcessed_result)
  have b: "firestore_get_error env (trace w) eventId \<noteq> None \<longrightarrow>
        snd (isEventProcessed env w eventId) = Inr False"
    by (simp add: isEventProcessed_result)
  have c: "snd (markEventProcessed env w eventId ch t) = Inr ()"
    by (rule markEventProcessed_returns)
  have d: "\<exists>r. snd (pubsub_push env cfg w m) = Inr r
        \<and> (status r = 500 \<longrightarrow>
             (\<exists>tr c th txt. trace (fst (pubsub_push env cfg w m)) = tr @ [(SlackPost c th txt, False)]))"
  proof (cases m)
    case NoData
    then show ?thesis by (simp add: pubsub_push_def)
  next
    case Undecodable
    then show ?thesis by (simp add: pubsub_push_def)
  next
    case (Data ev)
    obtain w1 where w1: "w1 = log_effect w (FirestoreGet (event_id ev))
        (firestore_get_error env (trace w) (event_id ev) = None)"
      by simp
    obtain w2 r2 where p: "process_event env cfg w1 ev = (w2, r2)"
      by (cases "process_event env cfg w1 ev")
    show ?thesis
    proof (cases r2)
      case (Inl err)
      with p process_event_raises_only_on_dispatch [of env cfg w1 ev w2 err]
      obtain tr reply where "trace w2 = tr @ [(SlackPost (channel ev) (thread_ts ev) reply, False)]"
        by blast
      with Data p Inl w1 show ?thesis
        by (auto simp: pubsub_push_def isEventProcessed_result)
    next
      case (Inr r)
      with p have "r = OK_RESPONSE"
        by (auto simp: process_event_def Let_def split: if_splits prod.splits sum.splits)
      with Data p Inr w1 show ?thesis
        by (auto simp: pubsub_push_def isEventProcessed_result OK_RESPONSE_def)
    qed
  qed
  from a b c d show ?thesis by blast
qed


theorem ledger_failures_are_not_propagated_witness:
  "firestore_get_error env_ledger_down (trace w_init) (event_id ev_question) \<noteq> None
   \<and> snd (isEventProcessed env_ledger_down w_init (event_id ev_question)) = Inr False
   \<and> snd (markEventProcessed env_ledger_down w_init (event_id ev_question) (channel ev_question)
            (ts ev_question)) = Inr ()
   \<and> snd (pubsub_push env_ledger_down cfg_ok w_init (Data ev_question)) = Inr OK_RESPONSE
   \<and> status OK_RESPONSE \<noteq> 500"
  using ledger_failures_are_not_propagated
    [of env_ledger_down w_init "event_id ev_question" "channel ev_question" "ts ev_question"
      cfg_ok "Data ev_question"]
  by (simp add: env_ledger_down_def example_defs call_defs worker_defs)

lemma agent_not_marker: "is_agent_effect e \<Longrightarrow> \<not> is_marker_write e"
  by (cases e) simp_all

lemma agent_not_reply: "is_agent_effect e \<Longrightarrow> \<not> is_reply e"
  by (cases e) simp_all

lemma agent_entries_no_reply:
  "list_all (\<lambda>x. is_agent_effect (fst x)) ext \<Longrightarrow> replies ext = []"
  by (auto simp: replies_def list_all_iff filter_empty_conv dest: agent_not_reply)

lemma agent_entries_no_marker:
  "list_all (\<lambda>x. is_agent_effect (fst x)) ext \<Longrightarrow> marker_writes ext = []"
  by (auto simp: marker_writes_def list_all_iff filter_empty_conv dest: agent_not_marker)

lemma process_event_shape:
  assumes run: "process_event env cfg w ev = (w', r)"
  shows "\<exists>agent reply. list_all (\<lambda>x. is_agent_effect (fst x)) agent
     \<and> ((trace w' = trace w @ agent @ [(SlackPost (channel ev) (thread_ts ev) reply, False)]
          \<and> (\<exists>err. r = Inl err) \<and> processed_events w' = processed_events w)
        \<or> (\<exists>m ok. trace w' = trace w @ agent
                @ [(SlackPost (channel ev) (thread_ts ev) reply, True), (FirestoreSet (event_id ev) m, ok)]
             \<and> r = Inr OK_RESPONSE))"
proof (cases "extract_question (event_text ev) = []")
  case True
  with run have "list_all (\<lambda>x. is_agent_effect (fst x)) []
     \<and> ((trace w' = trace w @ [] @ [(SlackPost (channel ev) (thread_ts ev) HELP_MESSAGE, False)]
          \<and> (\<exists>err. r = Inl err) \<and> processed_events w' = processed_events w)
        \<or> (\<exists>m ok. trace w' = trace w @ []
                @ [(SlackPost (channel ev) (thread_ts ev) HELP_MESSAGE, True), (FirestoreSet (event_id ev) m, ok)]
             \<and> r = Inr OK_RESPONSE))"
    by (auto simp: process_event_def Let_def replyToSlack_def slack_postMessage_def
        markEventProcessed_def firestore_doc_set_def log_effect_def
        split: option.splits)
  then show ?thesis by blast
next
  case False
  obtain w1 a where g: "generateAnswer env cfg w (extract_question (event_text ev)) = (w1, Inr a)"
    using generateAnswer_returns by blast
  from generateAnswer_extends [OF g] obtain agent where
    pe: "processed_events w1 = processed_events w" and
    tr: "trace w1 = trace w @ agent" and ag: "list_all (\<lambda>x. is_agent_effect (fst x)) agent"
    by (auto simp: extends_def)
  from run False g pe tr have "(trace w' = trace w @ agent @ [(SlackPost (channel ev) (thread_ts ev) (answer a), False)]
          \<and> (\<exists>err. r = Inl err) \<and> processed_events w' = processed_events w)
        \<or> (\<exists>m ok. trace w' = trace w @ agent
                @ [(SlackPost (channel ev) (thread_ts ev) (answer a), True), (FirestoreSet (event_id ev) m, ok)]
             \<and> r = Inr OK_RESPONSE)"
    by (auto simp: process_event_def Let_def replyToSlack_def slack_postMessage_def
        markEventProcessed_def firestore_doc_set_def log_effect_def
        split: option.splits)
  with ag show ?thesis by blast
qed

lemma snoc_eq_split:
  "xs @ [y] = pre @ x # post \<Longrightarrow> (pre = xs \<and> x = y \<and> post = []) \<or> x \<in> set xs"
  by (cases post rule: rev_cases) auto


lemma pubsub_push_shape:
  assumes run: "pubsub_push env cfg w (Data ev) = (w', r)"
  shows "\<exists>g pre reply. marker_writes pre = [] \<and> replies pre = []
     \<and> ((trace w' = trace w @ pre \<and> pre = [(FirestoreGet (event_id ev), g)]
          \<and> r = Inr ALREADY_PROCESSED \<and> processed_events w' = processed_events w)
        \<or> (trace w' = trace w @ pre @ [(SlackPost (channel ev) (thread_ts ev) reply, False)]
          \<and> r = Inr PROCESSING_FAILED \<and> processed_events w' = processed_events w)
        \<or> (\<exists>m ok. trace w' = trace w @ pre
                @ [(SlackPost (channel ev) (thread_ts ev) reply, True), (FirestoreSet (event_id ev) m, ok)]
             \<and> r = Inr OK_RESPONSE))"
proof -
  define g where "g = (firestore_get_error env (trace w) (event_id ev) = None)"
  define w1 where "w1 = log_effect w (FirestoreGet (event_id ev)) g"
  have ie: "isEventProcessed env w (event_id ev) = (w1, Inr (g \<and> processed_events w (event_id ev) \<noteq> None))"
    by (simp add: isEventProcessed_result w1_def g_def)
  have t1: "trace w1 = trace w @ [(FirestoreGet (event_id ev), g)]"
    and p1: "processed_events w1 = processed_events w"
    by (simp_all add: w1_def log_effect_def)
  show ?thesis
  proof (cases "g \<and> processed_events w (event_id ev) \<noteq> None")
    case True
    with run ie t1 p1 have "marker_writes [(FirestoreGet (event_id ev), g)] = []
      \<and> replies [(FirestoreGet (event_id ev), g)] = []
      \<and> trace w' = trace w @ [(FirestoreGet (event_id ev), g)]
      \<and> r = Inr ALREADY_PROCESSED \<and> processed_events w' = processed_events w"
      by (auto simp: pubsub_push_def ALREADY_PROCESSED_def marker_writes_def replies_def)
    then show ?thesis by blast
  next
    case False
    obtain w2 r2 where pe: "process_event env cfg w1 ev = (w2, r2)"
      by (cases "process_event env cfg w1 ev")
    from process_event_shape [OF pe] obtain agent reply where
      ag: "list_all (\<lambda>x. is_agent_effect (fst x)) agent" and
      sh: "(trace w2 = trace w1 @ agent @ [(SlackPost (channel ev) (thread_ts ev) reply, False)]
          \<and> (\<exists>err. r2 = Inl err) \<and> processed_events w2 = processed_events w1)
        \<or> (\<exists>m ok. trace w2 = trace w1 @ agent
                @ [(SlackPost (channel ev) (thread_ts ev) reply, True), (FirestoreSet (event_id ev) m, ok)]
             \<and> r2 = Inr OK_RESPONSE)"
      by blast
    have mw: "marker_writes ((FirestoreGet (event_id ev), g) # agent) = []"
      using agent_entries_no_marker [OF ag] by (simp add: marker_writes_def)
    have rp: "replies ((FirestoreGet (event_id ev), g) # agent) = []"
      using agent_entries_no_reply [OF ag] by (simp add: replies_def)
    from run ie False pe have res: "w' = w2"
      "r = (case r2 of Inl err \<Rightarrow> Inr PROCESSING_FAILED | Inr x \<Rightarrow> Inr x)"
      by (auto simp: pubsub_push_def PROCESSING_FAILED_def split: sum.splits)
    from sh res t1 p1 have
      "(trace w' = trace w @ ((FirestoreGet (event_id ev), g) # agent)
            @ [(SlackPost (channel ev) (thread_ts ev) reply, False)]
          \<and> r = Inr PROCESSING_FAILED \<and> processed_events w' = processed_events w)
        \<or> (\<exists>m ok. trace w' = trace w @ ((FirestoreGet (event_id ev), g) # agent)
                @ [(SlackPost (channel ev) (thread_ts ev) reply, True), (FirestoreSet (event_id ev) m, ok)]
             \<and> r = Inr OK_RESPONSE)"
      by auto
    with mw rp show ?thesis by blast
  qed
qed

lemma no_marker_write_member:
  "marker_writes pre = [] \<Longrightarrow> (FirestoreSet i m, ok) \<notin> set pre"
  by (auto simp: marker_writes_def filter_empty_conv)

lemma no_reply_member: "replies pre = [] \<Longrightarrow> (SlackPost c t x, ok) \<notin> set pre"
  by (auto simp: replies_def filter_empty_conv)

text \<open>
  Claim C5. In every handling of a decoded event, a marker write is logged only after
  a successful reply dispatch to the event's thread logged earlier in the same handling.
  If a dispatch fails, or the \<^verbatim>\<open>try\<close> block raises in any way, the handler answers 500,
  logs no marker write and leaves the stored markers as they were.
\<close>

theorem marker_is_written_only_after_successful_reply:
  assumes run: "pubsub_push env cfg w (Data ev) = (w', r)"
  shows "(\<forall>pre i m ok post. trace w' = trace w @ pre @ (FirestoreSet i m, ok) # post \<longrightarrow>
            (\<exists>reply. (SlackPost (channel ev) (thread_ts ev) reply, True) \<in> set pre))
     \<and> ((\<exists>c t x. (SlackPost c t x, False) \<in> set (new_entries w w')) \<longrightarrow>
            r = Inr PROCESSING_FAILED \<and> marker_writes (new_entries w w') = []
            \<and> processed_events w' = processed_events w)
     \<and> (\<forall>w1 w2 err. isEventProcessed env w (event_id ev) = (w1, Inr False)
            \<and> process_event env cfg w1 ev = (w2, Inl err) \<longrightarrow>
            r = Inr PROCESSING_FAILED \<and> marker_writes (new_entries w w') = []
            \<and> processed_events w' = processed_events w)"
proof -
  from pubsub_push_shape [OF run] obtain g pre reply where
    mw: "marker_writes pre = []" and rp: "replies pre = []" and
    sh: "(trace w' = trace w @ pre \<and> pre = [(FirestoreGet (event_id ev), g)]
          \<and> r = Inr ALREADY_PROCESSED \<and> processed_events w' = processed_events w)
        \<or> (trace w' = trace w @ pre @ [(SlackPost (channel ev) (thread_ts ev) reply, False)]
          \<and> r = Inr PROCESSING_FAILED \<and> processed_events w' = processed_events w)
        \<or> (\<exists>m ok. trace w' = trace w @ pre
                @ [(SlackPost (channel ev) (thread_ts ev) reply, True), (FirestoreSet (event_id ev) m, ok)]
             \<and> r = Inr OK_RESPONSE)"
    by blast
  have order: "\<exists>reply. (SlackPost (channel ev) (thread_ts ev) reply, True) \<in> set p"
    if eq: "trace w' = trace w @ p @ (FirestoreSet i m, ok) # post" for p i m ok post
  proof -
    from sh consider
      (a) "trace w' = trace w @ pre"
    | (b) "trace w' = trace w @ pre @ [(SlackPost (channel ev) (thread_ts ev) reply, False)]"
    | (c) m' ok' where "trace w' = trace w @ pre
                @ [(SlackPost (channel ev) (thread_ts ev) reply, True), (FirestoreSet (event_id ev) m', ok')]"
      by blast
    then show ?thesis
    proof cases
      case a
      with eq have "(FirestoreSet i m, ok) \<in> set pre" by simp
      with mw show ?thesis by (simp add: no_marker_write_member)
    next
      case b
      with eq have "pre @ [(SlackPost (channel ev) (thread_ts ev) reply, False)]
          = p @ (FirestoreSet i m, ok) # post" by simp
      from snoc_eq_split [OF this] mw show ?thesis
        by (auto simp: no_marker_write_member)
    next
      case c
      with eq have "(pre @ [(SlackPost (channel ev) (thread_ts ev) reply, True)])
             @ [(FirestoreSet (event_id ev) m', ok')]
          = p @ (FirestoreSet i m, ok) # post" by simp
      from snoc_eq_split [OF this] mw show ?thesis
        by (auto simp: no_marker_write_member)
    qed
  qed
  have failed: "r = Inr PROCESSING_FAILED \<and> marker_writes (new_entries w w') = []
            \<and> processed_events w' = processed_events w"
    if "(SlackPost c t x, False) \<in> set (new_entries w w')" for c t x
    using sh that mw no_reply_member [OF rp, of c t x False]
    by (auto simp: new_entries_def marker_writes_def)
  have raised: "r = Inr PROCESSING_FAILED \<and> marker_writes (new_entries w w') = []
            \<and> processed_events w' = processed_events w"
    if ie: "isEventProcessed env w (event_id ev) = (w1, Inr False)"
      and pe: "process_event env cfg w1 ev = (w2, Inl err)" for w1 w2 err
  proof -
    from run ie pe have r: "r = Inr PROCESSING_FAILED" "w' = w2"
      by (auto simp: pubsub_push_def PROCESSING_FAILED_def)
    with sh mw show ?thesis
      by (auto simp: new_entries_def marker_writes_def OK_RESPONSE_def PROCESSING_FAILED_def
          ALREADY_PROCESSED_def)
  qed
  from order failed raised show ?thesis by blast
qed


theorem marker_is_written_only_after_successful_reply_witness:
  "pubsub_push env_answers cfg_ok w_init (Data ev_question) = (w_answered, Inr OK_RESPONSE)
   \<and> trace w_answered
       = trace w_init @ answered_prefix @ (FirestoreSet (ascii ''E1'') example_marker, True) # []
   \<and> (\<exists>reply. (SlackPost (channel ev_question) (thread_ts ev_question) reply, True)
          \<in> set answered_prefix)
   \<and> pubsub_push env_slack_down cfg_ok w_init (Data ev_question)
       = (w_reply_failed, Inr PROCESSING_FAILED)
   \<and> (SlackPost (ascii ''C1'') (ascii ''T1'') (ascii ''answer''), False)
       \<in> set (new_entries w_init w_reply_failed)
   \<and> marker_writes (new_entries w_init w_reply_failed) = []
   \<and> processed_events w_reply_failed = processed_events w_init"
proof -
  have tr: "trace w_answered
       = trace w_init @ answered_prefix @ (FirestoreSet (ascii ''E1'') example_marker, True) # []"
    by (simp add: w_answered_def w_init_def)
  have ordered: "\<exists>reply. (SlackPost (channel ev_question) (thread_ts ev_question) reply, True)
          \<in> set answered_prefix"
    using marker_is_written_only_after_successful_reply [OF answered_run] tr by blast
  have post: "(SlackPost (ascii ''C1'') (ascii ''T1'') (ascii ''answer''), False)
       \<in> set (new_entries w_init w_reply_failed)"
    by (simp add: new_entries_def w_init_def w_reply_failed_def)
  then have "marker_writes (new_entries w_init w_reply_failed) = []
      \<and> processed_events w_reply_failed = processed_events w_init"
    using marker_is_written_only_after_successful_reply [OF reply_failed_run] by blast
  with answered_run tr ordered reply_failed_run post show ?thesis by blast
qed


text \<open>
  Claim C7, as stated, fails where the reply sink rejects the help message: the unseen
  mention-only event below is answered with 500 and no marker is written.
\<close>

theorem empty_question_reply_failure_counterexample:
  "snd (isEventProcessed env_slack_down w_init (event_id ev_mention_only)) = Inr False
   \<and> extract_question (event_text ev_mention_only) = []
   \<and> pubsub_push env_slack_down cfg_ok w_init (Data ev_mention_only)
       = (w_help_failed, Inr PROCESSING_FAILED)
   \<and> status PROCESSING_FAILED = 500
   \<and> processed_events w_help_failed (event_id ev_mention_only) = None"
  by (simp add: w_help_failed_def example_defs call_defs worker_defs)

text \<open>
  Claim C7, amended. For an unseen event whose text is empty after removing the
  mentions and trimming, the handler posts the fixed help message to the event's thread
  and makes no model call and no tool call. If the post is accepted it calls
  \<open>markEventProcessed\<close> for the event id (the marker is stored unless the store rejects
  the write, which is swallowed) and answers 200; if the post fails it answers 500 and
  writes no marker.
\<close>

theorem empty_question_gets_help_message:
  assumes unseen: "snd (isEventProcessed env w (event_id ev)) = Inr False"
    and empty: "extract_question (event_text ev) = []"
  shows "pubsub_push env cfg w (Data ev) =
     (let tr1 = trace w @ [(FirestoreGet (event_id ev),
                            firestore_get_error env (trace w) (event_id ev) = None)];
          help = SlackPost (channel ev) (thread_ts ev) HELP_MESSAGE;
          tr2 = tr1 @ [(help, True)];
          m = \<lparr>processed_at = timestamp_now env tr2, marker_channel = channel ev,
               marker_ts = ts ev\<rparr>
      in if slack_post_error env tr1 (channel ev) (thread_ts ev) HELP_MESSAGE \<noteq> None
         then (w\<lparr>trace := tr1 @ [(help, False)]\<rparr>, Inr PROCESSING_FAILED)
         else if firestore_set_error env tr2 (event_id ev) m \<noteq> None
         then (w\<lparr>trace := tr2 @ [(FirestoreSet (event_id ev) m, False)]\<rparr>, Inr OK_RESPONSE)
         else (w\<lparr>trace := tr2 @ [(FirestoreSet (event_id ev) m, True)],
                 processed_events := (processed_events w)(event_id ev \<mapsto> m)\<rparr>,
               Inr OK_RESPONSE))
     \<and> model_calls (trace (fst (pubsub_push env cfg w (Data ev)))) = model_calls (trace w)
     \<and> tool_calls (trace (fst (pubsub_push env cfg w (Data ev)))) = tool_calls (trace w)"
proof -
  from unseen have np: "\<not> (firestore_get_error env (trace w) (event_id ev) = None
      \<and> processed_events w (event_id ev) \<noteq> None)"
    by (simp add: isEventProcessed_result)
  have run: "pubsub_push env cfg w (Data ev) =
     (let tr1 = trace w @ [(FirestoreGet (event_id ev),
                            firestore_get_error env (trace w) (event_id ev) = None)];
          help = SlackPost (channel ev) (thread_ts ev) HELP_MESSAGE;
          tr2 = tr1 @ [(help, True)];
          m = \<lparr>processed_at = timestamp_now env tr2, marker_channel = channel ev,
               marker_ts = ts ev\<rparr>
      in if slack_post_error env tr1 (channel ev) (thread_ts ev) HELP_MESSAGE \<noteq> None
         then (w\<lparr>trace := tr1 @ [(help, False)]\<rparr>, Inr PROCESSING_FAILED)
         else if firestore_set_error env tr2 (event_id ev) m \<noteq> None
         then (w\<lparr>trace := tr2 @ [(FirestoreSet (event_id ev) m, False)]\<rparr>, Inr OK_RESPONSE)
         else (w\<lparr>trace := tr2 @ [(FirestoreSet (event_id ev) m, True)],
                 processed_events := (processed_events w)(event_id ev \<mapsto> m)\<rparr>,
               Inr OK_RESPONSE))"
    using np empty
    by (auto simp: pubsub_push_def isEventProcessed_result process_event_def Let_def
        replyToSlack_def slack_postMessage_def markEventProcessed_def firestore_doc_set_def
        log_effect_def PROCESSING_FAILED_def
        split: option.splits)
  have counts: "model_calls (trace (fst (pubsub_push env cfg w (Data ev)))) = model_calls (trace w)
     \<and> tool_calls (trace (fst (pubsub_push env cfg w (Data ev)))) = tool_calls (trace w)"
    unfolding run by (simp add: Let_def model_calls_def tool_calls_def)
  from run counts show ?thesis by blast
qed

theorem empty_question_gets_help_message_witness:
  "snd (isEventProcessed env_answers w_init (event_id ev_mention_only)) = Inr False
   \<and> extract_question (event_text ev_mention_only) = []
   \<and> pubsub_push env_answers cfg_ok w_init (Data ev_mention_only) = (w_help_sent, Inr OK_RESPONSE)
   \<and> model_calls (trace w_help_sent) = 0 \<and> tool_calls (trace w_help_sent) = 0"
proof -
  have unseen: "snd (isEventProcessed env_answers w_init (event_id ev_mention_only)) = Inr False"
    by (simp add: isEventProcessed_result example_defs)
  have empty: "extract_question (event_text ev_mention_only) = []"
    by (simp add: example_defs worker_defs)
  from empty_question_gets_help_message [OF unseen empty, of cfg_ok]
  have "pubsub_push env_answers cfg_ok w_init (Data ev_mention_only) = (w_help_sent, Inr OK_RESPONSE)"
    by (simp add: Let_def w_help_sent_def example_marker_def example_defs ascii_def)
  moreover have "model_calls (trace w_help_sent) = 0 \<and> tool_calls (trace w_help_sent) = 0"
    by (simp add: w_help_sent_def model_calls_def tool_calls_def)
  ultimately show ?thesis using unseen empty by blast
qed

section \<open>Answer agent\<close>

lemma extends_mcp_counts:
  assumes "extends is_mcp_effect w w'"
  shows "model_calls (trace w') = model_calls (trace w)"
    and "tool_batches (trace w') = tool_batches (trace w)"
proof -
  from assms obtain ext where tr: "trace w' = trace w @ ext"
    and ex: "list_all (\<lambda>x. is_mcp_effect (fst x)) ext"
    by (auto simp: extends_def)
  have "\<not> is_model_call e \<and> \<not> is_tool_batch_send e" if "is_mcp_effect e" for e
    using that by (cases e) simp_all
  with ex have "filter (\<lambda>x. is_model_call (fst x)) ext = []"
    "filter (\<lambda>x. is_tool_batch_send (fst x)) ext = []"
    by (auto simp: list_all_iff filter_empty_conv)
  with tr show "model_calls (trace w') = model_calls (trace w)"
    and "tool_batches (trace w') = tool_batches (trace w)"
    by (simp_all add: model_calls_def tool_batches_def)
qed

lemma sendMessage_counts:
  assumes "sendMessage env tools w m = (w', r)"
  shows "model_calls (trace w') = model_calls (trace w) + 1"
    and "tool_batches (trace w') = tool_batches (trace w) + (case m of Parts ps \<Rightarrow> 1 | Text t \<Rightarrow> 0)"
  using assms
  by (auto simp: sendMessage_def log_effect_def model_calls_def tool_batches_def
      split: sum.splits message.splits)

lemma tool_loop_bounded:
  "tool_loop env cfg tools w i res = (w', r) \<Longrightarrow>
     model_calls (trace w') \<le> model_calls (trace w) + (MAX_ITERATIONS - i)
     \<and> tool_batches (trace w') \<le> tool_batches (trace w) + (MAX_ITERATIONS - i)"
proof (induction env cfg tools w i res rule: tool_loop.induct)
  case (1 env cfg tools w iteration result)
  show ?case
  proof (cases "iteration < MAX_ITERATIONS \<and> (\<exists>c cs. functionCalls result = Inr (Some (c # cs)))")
    case False
    with "1.prems" have "w' = w"
      by (auto simp: tool_loop.simps split: sum.splits option.splits list.splits if_splits)
    then show ?thesis by simp
  next
    case True
    then obtain c cs where it: "iteration < MAX_ITERATIONS" and fc: "functionCalls result = Inr (Some (c # cs))"
      by blast
    obtain w1 parts where ex: "exec_tools env cfg w (c # cs) [] = (w1, parts)"
      by (cases "exec_tools env cfg w (c # cs) []")
    obtain w2 r2 where sm: "sendMessage env tools w1 (Parts parts) = (w2, r2)"
      by (cases "sendMessage env tools w1 (Parts parts)")
    note c1 = extends_mcp_counts [OF exec_tools_extends [OF ex]]
    note c2 = sendMessage_counts [OF sm]
    show ?thesis
    proof (cases r2)
      case (Inl err)
      with "1.prems" it fc ex sm have "w' = w2" by (simp add: tool_loop.simps)
      with c1 c2 it show ?thesis by auto
    next
      case (Inr res')
      with "1.prems" it fc ex sm have "tool_loop env cfg tools w2 (iteration + 1) res' = (w', r)"
        by (simp add: tool_loop.simps)
      then have "model_calls (trace w') \<le> model_calls (trace w2) + (MAX_ITERATIONS - (iteration + 1))
        \<and> tool_batches (trace w') \<le> tool_batches (trace w2) + (MAX_ITERATIONS - (iteration + 1))"
        by (rule "1.IH" [OF it fc refl refl ex [symmetric] sm [symmetric] Inr])
      with c1 c2 it show ?thesis by auto
    qed
  qed
qed

lemma generateAnswer_try_bounded:
  assumes "generateAnswer_try env cfg w q = (w', r)"
  shows "model_calls (trace w') \<le> model_calls (trace w) + MAX_ITERATIONS + 1
     \<and> tool_batches (trace w') \<le> tool_batches (trace w) + MAX_ITERATIONS"
proof -
  obtain w1 r1 where g: "getGeminiTools env cfg w = (w1, r1)"
    by (cases "getGeminiTools env cfg w")
  note c1 = extends_mcp_counts [OF getGeminiTools_extends_mcp [OF g]]
  show ?thesis
  proof (cases r1)
    case (Inl err)
    with assms g c1 show ?thesis by (simp add: generateAnswer_try_def)
  next
    case (Inr tools)
    obtain w3 r3 where sm: "sendMessage env tools (w1\<lparr>genAI := True\<rparr>) (Text q) = (w3, r3)"
      by (cases "sendMessage env tools (w1\<lparr>genAI := True\<rparr>) (Text q)")
    note c3 = sendMessage_counts [OF sm]
    show ?thesis
    proof (cases "GEMINI_API_KEY cfg = []")
      case True
      with assms g Inr c1 show ?thesis
        by (simp add: generateAnswer_try_def getModel_def)
    next
      case False
      show ?thesis
      proof (cases r3)
        case (Inl err)
        with assms g Inr False sm c1 c3 show ?thesis
          by (simp add: generateAnswer_try_def getModel_def)
      next
        case r3: (Inr res)
        obtain w4 r4 where tl: "tool_loop env cfg tools w3 0 res = (w4, r4)"
          by (cases "tool_loop env cfg tools w3 0 res")
        from assms g Inr False sm r3 tl have "w' = w4"
          by (auto simp: generateAnswer_try_def getModel_def split: sum.splits)
        with tool_loop_bounded [OF tl] c1 c3 show ?thesis by simp
      qed
    qed
  qed
qed

lemma sendMessage_answered:
  "sendMessage env tools w (Parts ps) = (w', Inr res) \<Longrightarrow> answered_by env tools i w' res"
  by (auto simp: sendMessage_def log_effect_def answered_by_def split: sum.splits)

lemma tool_loop_exhausts:
  "\<forall>tr tl m. \<exists>r c cs. gemini_send env tr tl m = Inr r \<and> functionCalls r = Inr (Some (c # cs)) \<Longrightarrow>
   i \<le> MAX_ITERATIONS \<Longrightarrow> answered_by env tools i w res \<Longrightarrow>
     \<exists>w' res'. tool_loop env cfg tools w i res = (w', Inr res')
        \<and> tool_batches (trace w') = tool_batches (trace w) + (MAX_ITERATIONS - i)
        \<and> model_calls (trace w') = model_calls (trace w) + (MAX_ITERATIONS - i)
        \<and> answered_by env tools MAX_ITERATIONS w' res'"
proof (induction env cfg tools w i res rule: tool_loop.induct)
  case (1 env cfg tools w iteration result)
  note H = "1.prems"(1)
  show ?case
  proof (cases "iteration < MAX_ITERATIONS")
    case False
    with "1.prems"(2) have eq: "iteration = MAX_ITERATIONS" by simp
    with "1.prems"(3) show ?thesis by (simp add: tool_loop.simps)
  next
    case it: True
    from "1.prems"(3) obtain tr m where "gemini_send env tr tools m = Inr result"
      by (auto simp: answered_by_def)
    with H obtain c cs where fc: "functionCalls result = Inr (Some (c # cs))"
      by (metis sum.inject(2))
    obtain w1 parts where ex: "exec_tools env cfg w (c # cs) [] = (w1, parts)"
      by (cases "exec_tools env cfg w (c # cs) []")
    from H obtain res' where gs: "gemini_send env (trace w1) tools (Parts parts) = Inr res'"
      by blast
    define w2 where "w2 = log_effect w1 (GeminiSend tools (Parts parts)) True"
    from gs have sm: "sendMessage env tools w1 (Parts parts) = (w2, Inr res')"
      by (simp add: sendMessage_def w2_def)
    note c1 = extends_mcp_counts [OF exec_tools_extends [OF ex]]
    note c2 = sendMessage_counts [OF sm]
    have step: "tool_loop env cfg tools w iteration result
        = tool_loop env cfg tools w2 (iteration + 1) res'"
      using it fc ex sm by (simp add: tool_loop.simps)
    have "\<exists>w' res''. tool_loop env cfg tools w2 (iteration + 1) res' = (w', Inr res'')
        \<and> tool_batches (trace w') = tool_batches (trace w2) + (MAX_ITERATIONS - (iteration + 1))
        \<and> model_calls (trace w') = model_calls (trace w2) + (MAX_ITERATIONS - (iteration + 1))
        \<and> answered_by env tools MAX_ITERATIONS w' res''"
    proof (rule "1.IH" [OF it fc refl refl ex [symmetric] sm [symmetric] refl H])
      show "iteration + 1 \<le> MAX_ITERATIONS" using it by simp
      show "answered_by env tools (iteration + 1) w2 res'"
        using sm by (rule sendMessage_answered)
    qed
    with step c1 c2 it show ?thesis by auto
  qed
qed


lemma forever_run:
  "snd (generateAnswer env_tools_forever cfg_ok w_init (ascii ''OpenRTB''))
     = Inr \<lparr>answer = [], success = True\<rparr>
   \<and> model_calls (trace (fst (generateAnswer env_tools_forever cfg_ok w_init (ascii ''OpenRTB'')))) = 11
   \<and> tool_batches (trace (fst (generateAnswer env_tools_forever cfg_ok w_init (ascii ''OpenRTB'')))) = 10
   \<and> tool_calls (trace (fst (generateAnswer env_tools_forever cfg_ok w_init (ascii ''OpenRTB'')))) = 10"
  by (simp add: example_defs call_defs worker_defs model_calls_def tool_batches_def tool_calls_def)

lemma forever_requests:
  "\<forall>tr tl m. \<exists>r c cs. gemini_send env_tools_forever tr tl m = Inr r \<and> functionCalls r = Inr (Some (c # cs))"
  by (simp add: example_defs)

text \<open>
  Claim C3. For every behaviour of the model and of the other collaborators,
  \<open>generateAnswer\<close> returns, provided each awaited call does: it is a total function,
  its loop defined with the termination measure \<open>MAX_ITERATIONS - iteration\<close>. It adds
  to the log at most 10 sends of tool results (one per cycle of the loop) and at most 11
  sends to the model in all.
\<close>

theorem agent_loop_is_bounded:
  "\<exists>w' r. generateAnswer env cfg w question = (w', Inr r)
     \<and> tool_batches (trace w') \<le> tool_batches (trace w) + 10
     \<and> model_calls (trace w') \<le> model_calls (trace w) + 11
     \<and> MAX_ITERATIONS = 10"
proof -
  obtain w' r where g: "generateAnswer env cfg w question = (w', Inr r)"
    using generateAnswer_returns by blast
  have "tool_batches (trace w') \<le> tool_batches (trace w) + MAX_ITERATIONS
     \<and> model_calls (trace w') \<le> model_calls (trace w) + MAX_ITERATIONS + 1"
  proof (cases "GEMINI_API_KEY cfg = []")
    case True
    with g show ?thesis by (simp add: generateAnswer_def)
  next
    case False
    obtain w2 r2 where t: "generateAnswer_try env cfg w question = (w2, r2)"
      by (cases "generateAnswer_try env cfg w question")
    with g False have "w' = w2"
      by (auto simp: generateAnswer_def split: sum.splits)
    with generateAnswer_try_bounded [OF t] show ?thesis by simp
  qed
  with g show ?thesis by (simp add: MAX_ITERATIONS_def)
qed


theorem agent_loop_is_bounded_witness:
  "\<exists>w' r. generateAnswer env_tools_forever cfg_ok w_init (ascii ''OpenRTB'') = (w', Inr r)
     \<and> tool_batches (trace w') = 10 \<and> model_calls (trace w') = 11"
  using agent_loop_is_bounded [of env_tools_forever cfg_ok w_init "ascii ''OpenRTB''"] forever_run
  by auto


text \<open>
  Claim C2, as stated, fails: with a model that requests a search on every turn and
  whose answers carry no text, the agent runs its 10 cycles and then returns the empty
  answer with \<open>success = True\<close>.
\<close>

theorem bound_reached_counterexample:
  "(\<forall>tr tl m. \<exists>r c cs. gemini_send env_tools_forever tr tl m = Inr r
        \<and> functionCalls r = Inr (Some (c # cs)))
   \<and> tool_batches (trace (fst (generateAnswer env_tools_forever cfg_ok w_init (ascii ''OpenRTB'')))) = 10
   \<and> snd (generateAnswer env_tools_forever cfg_ok w_init (ascii ''OpenRTB''))
       = Inr \<lparr>answer = [], success = True\<rparr>"
  using forever_run forever_requests by blast

text \<open>
  Claim C2, amended. With the API key set and the tool catalogue loaded, for a model
  that requests tool calls on every turn the agent sends tool results exactly 10 times
  (11 sends to the model in all) and then returns the text of the model's last answer
  with \<open>success = True\<close>; only when reading that text throws does it return the fixed
  error answer with \<open>success = False\<close>.
\<close>

theorem bound_reached_returns_last_response:
  assumes key: "GEMINI_API_KEY cfg \<noteq> []"
    and cat: "getGeminiTools env cfg w = (w1, Inr tools)"
    and H: "\<forall>tr tl m. \<exists>r c cs. gemini_send env tr tl m = Inr r \<and> functionCalls r = Inr (Some (c # cs))"
  shows "\<exists>w' tr ps res. generateAnswer env cfg w question
        = (w', Inr (case response_text res of
                     Inr a \<Rightarrow> \<lparr>answer = a, success = True\<rparr>
                   | Inl err \<Rightarrow> \<lparr>answer = AGENT_ERROR_ANSWER, success = False\<rparr>))
     \<and> trace w' = tr @ [(GeminiSend tools (Parts ps), True)]
     \<and> gemini_send env tr tools (Parts ps) = Inr res
     \<and> tool_batches (trace w') = tool_batches (trace w) + 10
     \<and> model_calls (trace w') = model_calls (trace w) + 11"
proof -
  note c1 = extends_mcp_counts [OF getGeminiTools_extends_mcp [OF cat]]
  define w2 where "w2 = w1\<lparr>genAI := True\<rparr>"
  from H obtain res0 where g0: "gemini_send env (trace w2) tools (Text question) = Inr res0"
    by blast
  define w3 where "w3 = log_effect w2 (GeminiSend tools (Text question)) True"
  from g0 have sm: "sendMessage env tools w2 (Text question) = (w3, Inr res0)"
    by (simp add: sendMessage_def w3_def)
  note c3 = sendMessage_counts [OF sm]
  have a0: "answered_by env tools 0 w3 res0"
    using g0 by (auto simp: answered_by_def w3_def log_effect_def)
  from tool_loop_exhausts [OF H _ a0, of cfg] obtain w' res where
    tl: "tool_loop env cfg tools w3 0 res0 = (w', Inr res)" and
    tb: "tool_batches (trace w') = tool_batches (trace w3) + (MAX_ITERATIONS - 0)" and
    mc: "model_calls (trace w') = model_calls (trace w3) + (MAX_ITERATIONS - 0)" and
    ab: "answered_by env tools MAX_ITERATIONS w' res"
    by auto
  from ab obtain tr ps where last: "trace w' = tr @ [(GeminiSend tools (Parts ps), True)]"
    "gemini_send env tr tools (Parts ps) = Inr res"
    by (auto simp: answered_by_def MAX_ITERATIONS_def)
  have run: "generateAnswer env cfg w question
        = (w', Inr (case response_text res of
                     Inr a \<Rightarrow> \<lparr>answer = a, success = True\<rparr>
                   | Inl err \<Rightarrow> \<lparr>answer = AGENT_ERROR_ANSWER, success = False\<rparr>))"
    using key cat sm tl
    by (simp add: generateAnswer_def generateAnswer_try_def getModel_def w2_def split: sum.splits)
  have "tool_batches (trace w') = tool_batches (trace w) + 10"
    "model_calls (trace w') = model_calls (trace w) + 11"
    using tb mc c1 c3 by (simp_all add: w2_def MAX_ITERATIONS_def)
  with run last show ?thesis by blast
qed

theorem bound_reached_returns_last_response_witness:
  "GEMINI_API_KEY cfg_ok \<noteq> []
   \<and> (\<exists>w1. getGeminiTools env_tools_forever cfg_ok w_init = (w1, Inr []))
   \<and> (\<exists>w' tr ps. generateAnswer env_tools_forever cfg_ok w_init (ascii ''OpenRTB'')
          = (w', Inr \<lparr>answer = [], success = True\<rparr>)
        \<and> trace w' = tr @ [(GeminiSend [] (Parts ps), True)]
        \<and> tool_batches (trace w') = 10 \<and> model_calls (trace w') = 11)"
proof -
  have key: "GEMINI_API_KEY cfg_ok \<noteq> []"
    by (simp add: cfg_ok_def ascii_def)
  define w1 where "w1 = fst (getGeminiTools env_tools_forever cfg_ok w_init)"
  have cat: "getGeminiTools env_tools_forever cfg_ok w_init = (w1, Inr [])"
    by (simp add: w1_def example_defs call_defs getGeminiTools_def getClient_def
        convertTools_def)
  from bound_reached_returns_last_response [OF key cat forever_requests, of "ascii ''OpenRTB''"]
  obtain w' tr ps res where
    "generateAnswer env_tools_forever cfg_ok w_init (ascii ''OpenRTB'')
        = (w', Inr (case response_text res of
                     Inr a \<Rightarrow> \<lparr>answer = a, success = True\<rparr>
                   | Inl err \<Rightarrow> \<lparr>answer = AGENT_ERROR_ANSWER, success = False\<rparr>))"
    "trace w' = tr @ [(GeminiSend [] (Parts ps), True)]"
    "gemini_send env_tools_forever tr [] (Parts ps) = Inr res"
    "tool_batches (trace w') = tool_batches (trace w_init) + 10"
    "model_calls (trace w') = model_calls (trace w_init) + 11"
    by blast
  moreover from this(3) have "response_text res = Inr []"
    by (auto simp: example_defs)
  ultimately have "generateAnswer env_tools_forever cfg_ok w_init (ascii ''OpenRTB'')
          = (w', Inr \<lparr>answer = [], success = True\<rparr>)
        \<and> trace w' = tr @ [(GeminiSend [] (Parts ps), True)]
        \<and> tool_batches (trace w') = 10 \<and> model_calls (trace w') = 11"
    by (simp add: w_init_def model_calls_def tool_batches_def)
  with key cat show ?thesis by blast
qed

lemma tool_outcomes_length: "length (tool_outcomes env cfg w calls) = length calls"
  by (induction calls arbitrary: w) (auto split: prod.splits)

lemma exec_tools_parts:
  "snd (exec_tools env cfg w calls parts)
     = parts @ map2 tool_part calls (tool_outcomes env cfg w calls)"
  by (induction calls arbitrary: w parts) (auto split: prod.splits)

lemma callMcpTool_attempts:
  "callMcpTool env cfg w n a = (w', r) \<Longrightarrow> tool_calls (trace w') \<le> tool_calls (trace w) + 1"
  by (auto simp: callMcpTool_def getClient_def client_connect_def client_callTool_def
      log_effect_def tool_calls_def
      split: if_splits option.splits sum.splits prod.splits)

lemma exec_tools_attempts:
  "tool_calls (trace (fst (exec_tools env cfg w calls parts))) \<le> tool_calls (trace w) + length calls"
proof (induction calls arbitrary: w parts)
  case Nil
  then show ?case by simp
next
  case (Cons c cs)
  obtain w1 r where cm: "callMcpTool env cfg w (call_name c) (call_args c) = (w1, r)"
    by (cases "callMcpTool env cfg w (call_name c) (call_args c)")
  from Cons.IH [of w1 "parts @ [tool_part c r]"] callMcpTool_attempts [OF cm] cm
  show ?case by simp
qed

lemma tool_part_fields:
  "fr_name (tool_part c r) = call_name c"
  "fr_response (tool_part c r)
     = (case r of Inr t \<Rightarrow> Content (content t) | Inl err \<Rightarrow> ErrorMessage (message_of err))"
  by (simp_all add: tool_part_def split: sum.splits)

text \<open>
  Claim C4, as stated, fails at the loop bound: the model's answer to the tenth batch
  may request tool calls again, and then the loop is left with the state unchanged, so
  none of the requested calls is invoked and no message follows. A model that asks for
  one search on every turn gets 11 sends but only 10 tool invocations.
\<close>

theorem batch_at_bound_counterexample:
  "functionCalls wants_search = Inr (Some [search_call])
   \<and> tool_loop env_tools_forever cfg_ok [] w_init MAX_ITERATIONS wants_search
       = (w_init, Inr wants_search)
   \<and> (\<forall>tr tl m. gemini_send env_tools_forever tr tl m = Inr wants_search)
   \<and> model_calls (trace (fst (generateAnswer env_tools_forever cfg_ok w_init (ascii ''OpenRTB'')))) = 11
   \<and> tool_calls (trace (fst (generateAnswer env_tools_forever cfg_ok w_init (ascii ''OpenRTB'')))) = 10"
proof -
  have "functionCalls wants_search = Inr (Some [search_call])"
    by (simp add: wants_search_def)
  moreover have "tool_loop env_tools_forever cfg_ok [] w_init MAX_ITERATIONS wants_search
       = (w_init, Inr wants_search)"
    by (simp add: tool_loop.simps)
  moreover have "\<forall>tr tl m. gemini_send env_tools_forever tr tl m = Inr wants_search"
    by (simp add: env_tools_forever_def)
  ultimately show ?thesis using forever_run by blast
qed

text \<open>
  Claim C4, amended. For every model answer that requests \<open>n > 0\<close> tool calls while
  fewer than \<open>MAX_ITERATIONS\<close> batches have been run, the agent invokes \<open>callMcpTool\<close>
  once for each of the \<open>n\<close> calls, in order, and the next message sent to the model is
  a single message of exactly \<open>n\<close> parts: part \<open>k\<close> carries the name of call \<open>k\<close> and
  either the content of its result or, when its invocation threw, the error message.
  Nothing is sent to the model before the whole batch has run. Once \<open>MAX_ITERATIONS\<close>
  batches have been run the loop is left with the state as it is, whatever the model's
  answer requests.
\<close>

theorem tool_batch_is_answered_whole:
  assumes it: "iteration < MAX_ITERATIONS"
    and fc: "functionCalls result = Inr (Some calls)"
    and ne: "calls \<noteq> []"
  shows "(\<exists>w1 parts ok rest.
       exec_tools env cfg w calls [] = (w1, parts)
     \<and> parts = map2 tool_part calls (tool_outcomes env cfg w calls)
     \<and> length parts = length calls
     \<and> (\<forall>k<length calls. fr_name (parts ! k) = call_name (calls ! k)
           \<and> fr_response (parts ! k)
               = (case tool_outcomes env cfg w calls ! k of
                    Inr t \<Rightarrow> Content (content t)
                  | Inl err \<Rightarrow> ErrorMessage (message_of err)))
     \<and> model_calls (trace w1) = model_calls (trace w)
     \<and> trace (fst (tool_loop env cfg tools w iteration result))
         = trace w1 @ (GeminiSend tools (Parts parts), ok) # rest)
   \<and> tool_loop env cfg tools w MAX_ITERATIONS result = (w, Inr result)"
proof -
  have bound: "tool_loop env cfg tools w MAX_ITERATIONS result = (w, Inr result)"
    by (simp add: tool_loop.simps)
  obtain w1 parts where ex: "exec_tools env cfg w calls [] = (w1, parts)"
    by (cases "exec_tools env cfg w calls []")
  have parts: "parts = map2 tool_part calls (tool_outcomes env cfg w calls)"
    using exec_tools_parts [of env cfg w calls "[]"] ex by simp
  have len: "length parts = length calls"
    by (simp add: parts tool_outcomes_length)
  have each: "\<forall>k<length calls. fr_name (parts ! k) = call_name (calls ! k)
           \<and> fr_response (parts ! k)
               = (case tool_outcomes env cfg w calls ! k of
                    Inr t \<Rightarrow> Content (content t)
                  | Inl err \<Rightarrow> ErrorMessage (message_of err))"
    by (simp add: parts tool_outcomes_length tool_part_fields)
  have mc: "model_calls (trace w1) = model_calls (trace w)"
    using exec_tools_extends [OF ex] by (rule extends_mcp_counts)
  obtain w2 r2 where sm: "sendMessage env tools w1 (Parts parts) = (w2, r2)"
    by (cases "sendMessage env tools w1 (Parts parts)")
  then have "\<exists>ok. trace w2 = trace w1 @ [(GeminiSend tools (Parts parts), ok)]"
    by (cases "gemini_send env (trace w1) tools (Parts parts)")
      (auto simp: sendMessage_def log_effect_def)
  then obtain ok where t2: "trace w2 = trace w1 @ [(GeminiSend tools (Parts parts), ok)]"
    by blast
  from ne obtain c cs where cs: "calls = c # cs" by (cases calls) auto
  have "\<exists>rest. trace (fst (tool_loop env cfg tools w iteration result)) = trace w2 @ rest"
  proof (cases r2)
    case (Inl err)
    with it fc cs ex sm have "fst (tool_loop env cfg tools w iteration result) = w2"
      by (simp add: tool_loop.simps)
    then show ?thesis by simp
  next
    case (Inr res')
    obtain w3 r3 where tl: "tool_loop env cfg tools w2 (iteration + 1) res' = (w3, r3)"
      by (cases "tool_loop env cfg tools w2 (iteration + 1) res'")
    with Inr it fc cs ex sm have "fst (tool_loop env cfg tools w iteration result) = w3"
      by (simp add: tool_loop.simps)
    with tool_loop_extends [OF tl] show ?thesis by (auto simp: extends_def)
  qed
  with t2 obtain rest where
    "trace (fst (tool_loop env cfg tools w iteration result))
         = trace w1 @ (GeminiSend tools (Parts parts), ok) # rest"
    by auto
  with ex parts len each mc bound show ?thesis by blast
qed

theorem tool_batch_is_answered_whole_witness:
  "0 < MAX_ITERATIONS
   \<and> functionCalls wants_three = Inr (Some [search_call, search_call, search_call])
   \<and> (\<exists>w1 ok rest. exec_tools env_flaky_tool cfg_ok w_init [search_call, search_call, search_call] []
          = (w1, three_parts)
        \<and> trace (fst (tool_loop env_flaky_tool cfg_ok [] w_init 0 wants_three))
          = trace w1 @ (GeminiSend [] (Parts three_parts), ok) # rest)"
proof -
  have it: "0 < MAX_ITERATIONS" by (simp add: MAX_ITERATIONS_def)
  have fc: "functionCalls wants_three = Inr (Some [search_call, search_call, search_call])"
    by (simp add: wants_three_def)
  have p: "snd (exec_tools env_flaky_tool cfg_ok w_init [search_call, search_call, search_call] [])
      = three_parts"
    by (simp add: three_parts_def env_flaky_tool_def example_defs call_defs worker_defs
        tool_calls_def)
  from tool_batch_is_answered_whole [OF it fc, of env_flaky_tool cfg_ok w_init "[]"] p
  have "\<exists>w1 ok rest. exec_tools env_flaky_tool cfg_ok w_init [search_call, search_call, search_call] []
          = (w1, three_parts)
        \<and> trace (fst (tool_loop env_flaky_tool cfg_ok [] w_init 0 wants_three))
          = trace w1 @ (GeminiSend [] (Parts three_parts), ok) # rest"
    by (auto simp del: exec_tools.simps)
  with it fc show ?thesis by blast
qed

text \<open>
  Claim C9, as stated, fails: there is no retry. A tool call whose first attempt drops
  the connection becomes an error part at once, although a second attempt would have
  succeeded.
\<close>

theorem failed_tool_call_no_retry_counterexample:
  "exec_tools env_flaky_tool cfg_ok w_init [search_call] []
     = (w_init\<lparr>trace := [(McpConnect, True),
                          (McpCallTool (call_name search_call) (call_args search_call), False)],
               client := True\<rparr>,
        [\<lparr>fr_name = ascii ''search'', fr_response = ErrorMessage (ascii ''connection dropped'')\<rparr>])
   \<and> mcp_call_tool env_flaky_tool
        [(McpConnect, True), (McpCallTool (call_name search_call) (call_args search_call), False)]
        (call_name search_call) (call_args search_call) = Inr search_result"
  by (simp add: env_flaky_tool_def example_defs call_defs worker_defs tool_calls_def)

text \<open>
  Claim C9, amended. A tool invocation that throws is attempted at most once: it is not
  retried, its error message becomes the part for that call immediately, and the loop
  goes on with the remaining calls of the batch, whose parts are added as usual. A batch
  of \<open>n\<close> calls makes at most \<open>n\<close> tool requests in all.
\<close>

theorem failed_tool_call_is_not_retried:
  assumes fails: "callMcpTool env cfg w (call_name c) (call_args c) = (w1, Inl err)"
  shows "tool_calls (trace w1) \<le> tool_calls (trace w) + 1
     \<and> exec_tools env cfg w (c # cs) parts
        = exec_tools env cfg w1 cs
            (parts @ [\<lparr>fr_name = call_name c, fr_response = ErrorMessage (message_of err)\<rparr>])
     \<and> length (snd (exec_tools env cfg w (c # cs) parts)) = length parts + 1 + length cs
     \<and> tool_calls (trace (fst (exec_tools env cfg w (c # cs) parts)))
        \<le> tool_calls (trace w) + 1 + length cs"
proof -
  have a: "tool_calls (trace w1) \<le> tool_calls (trace w) + 1"
    using fails by (rule callMcpTool_attempts)
  have b: "exec_tools env cfg w (c # cs) parts
        = exec_tools env cfg w1 cs
            (parts @ [\<lparr>fr_name = call_name c, fr_response = ErrorMessage (message_of err)\<rparr>])"
    using fails by (simp add: tool_part_def)
  have c: "length (snd (exec_tools env cfg w (c # cs) parts)) = length parts + 1 + length cs"
    by (simp add: exec_tools_parts tool_outcomes_length
        del: exec_tools.simps tool_outcomes.simps)
  have d: "tool_calls (trace (fst (exec_tools env cfg w (c # cs) parts)))
        \<le> tool_calls (trace w) + 1 + length cs"
    using exec_tools_attempts [of env cfg w "c # cs" parts] by simp
  from a b c d show ?thesis by blast
qed

theorem failed_tool_call_is_not_retried_witness:
  "callMcpTool env_flaky_tool cfg_ok w_init (call_name search_call) (call_args search_call)
     = (w_init\<lparr>trace := [(McpConnect, True),
                          (McpCallTool (call_name search_call) (call_args search_call), False)],
               client := True\<rparr>, Inl (Error (ascii ''connection dropped'')))
   \<and> snd (exec_tools env_flaky_tool cfg_ok w_init [search_call, search_call] [])
       = [\<lparr>fr_name = ascii ''search'', fr_response = ErrorMessage (ascii ''connection dropped'')\<rparr>,
          \<lparr>fr_name = ascii ''search'', fr_response = Content (ascii ''doc'')\<rparr>]
   \<and> tool_calls (trace (fst (exec_tools env_flaky_tool cfg_ok w_init [search_call, search_call] [])))
       \<le> 2"
proof -
  have f: "callMcpTool env_flaky_tool cfg_ok w_init (call_name search_call) (call_args search_call)
     = (w_init\<lparr>trace := [(McpConnect, True),
                          (McpCallTool (call_name search_call) (call_args search_call), False)],
               client := True\<rparr>, Inl (Error (ascii ''connection dropped'')))"
    by (simp add: env_flaky_tool_def example_defs call_defs worker_defs tool_calls_def)
  have p: "snd (exec_tools env_flaky_tool cfg_ok w_init [search_call, search_call] [])
       = [\<lparr>fr_name = ascii ''search'', fr_response = ErrorMessage (ascii ''connection dropped'')\<rparr>,
          \<lparr>fr_name = ascii ''search'', fr_response = Content (ascii ''doc'')\<rparr>]"
    by (simp add: env_flaky_tool_def example_defs call_defs worker_defs tool_calls_def)
  from failed_tool_call_is_not_retried [OF f, of "[search_call]" "[]"]
  have "tool_calls (trace (fst (exec_tools env_flaky_tool cfg_ok w_init [search_call, search_call] [])))
       \<le> tool_calls (trace w_init) + 1 + length [search_call]"
    by blast
  then have "tool_calls (trace (fst (exec_tools env_flaky_tool cfg_ok w_init [search_call, search_call] [])))
       \<le> 2"
    by (simp add: w_init_def tool_calls_def del: exec_tools.simps)
  with f p show ?thesis by blast
qed


text \<open>
  Claim C8, as stated, fails: the tool list is not cached. Two calls of
  \<open>getGeminiTools\<close> in one process fetch the catalogue twice and may return different
  declarations.
\<close>

theorem catalog_changes_counterexample:
  "(\<exists>w1 w2. getGeminiTools env_catalog_changes cfg_ok w_init = (w1, Inr [search_declaration])
       \<and> getGeminiTools env_catalog_changes cfg_ok w1 = (w2, Inr [])
       \<and> catalog_fetches (trace w1) = 1 \<and> catalog_fetches (trace w2) = 2)"
proof -
  define w1 where "w1 = w_init\<lparr>trace := [(McpConnect, True), (McpListTools, True)], client := True\<rparr>"
  define w2 where "w2 = w1\<lparr>trace := trace w1 @ [(McpListTools, True)]\<rparr>"
  have "getGeminiTools env_catalog_changes cfg_ok w_init = (w1, Inr [search_declaration])"
    by (simp add: w1_def env_catalog_changes_def search_tool_def search_declaration_def
        catalog_fetches_def mapSchemaType_def toLowerCase_ascii_def example_defs call_defs worker_defs)
  moreover have "getGeminiTools env_catalog_changes cfg_ok w1 = (w2, Inr [])"
    by (simp add: w1_def w2_def env_catalog_changes_def catalog_fetches_def example_defs
        call_defs worker_defs)
  moreover have "catalog_fetches (trace w1) = 1 \<and> catalog_fetches (trace w2) = 2"
    by (simp add: w1_def w2_def catalog_fetches_def w_init_def)
  ultimately show ?thesis by blast
qed

lemma connected_log: "client w \<Longrightarrow> e \<noteq> McpConnect \<Longrightarrow> connected_as w (log_effect w e ok)"
  by (simp add: connected_as_def log_effect_def connects_def)

lemma connected_refl: "client w \<Longrightarrow> connected_as w w"
  by (simp add: connected_as_def)

lemma connected_trans: "connected_as w w1 \<Longrightarrow> connected_as w1 w2 \<Longrightarrow> connected_as w w2"
  by (simp add: connected_as_def)

lemma connected_client: "connected_as w w' \<Longrightarrow> client w'"
  by (simp add: connected_as_def)

lemma callMcpTool_connected:
  "client w \<Longrightarrow> callMcpTool env cfg w n a = (w', r) \<Longrightarrow> connected_as w w'"
  by (auto simp: callMcpTool_def getClient_def client_callTool_def connected_log
      split: sum.splits)

lemma exec_tools_connected:
  "client w \<Longrightarrow> exec_tools env cfg w calls parts = (w', parts') \<Longrightarrow> connected_as w w'"
proof (induction calls arbitrary: w parts)
  case Nil
  then show ?case by (simp add: connected_refl)
next
  case (Cons c cs)
  obtain w1 r where cm: "callMcpTool env cfg w (call_name c) (call_args c) = (w1, r)"
    by (cases "callMcpTool env cfg w (call_name c) (call_args c)")
  note s1 = callMcpTool_connected [OF Cons.prems(1) cm]
  from Cons.prems(2) cm have "exec_tools env cfg w1 cs (parts @ [tool_part c r]) = (w', parts')"
    by simp
  from Cons.IH [OF connected_client [OF s1] this] s1 show ?case
    by (blast intro: connected_trans)
qed

lemma sendMessage_connected:
  "client w \<Longrightarrow> sendMessage env tools w m = (w', r) \<Longrightarrow> connected_as w w'"
  by (auto simp: sendMessage_def connected_log split: sum.splits)

lemma tool_loop_connected:
  "client w \<Longrightarrow> tool_loop env cfg tools w i res = (w', r) \<Longrightarrow> connected_as w w'"
proof (induction env cfg tools w i res rule: tool_loop.induct)
  case (1 env cfg tools w iteration result)
  show ?case
  proof (cases "iteration < MAX_ITERATIONS \<and> (\<exists>c cs. functionCalls result = Inr (Some (c # cs)))")
    case False
    with "1.prems" show ?thesis
      by (auto simp: tool_loop.simps connected_refl
          split: sum.splits option.splits list.splits if_splits)
  next
    case True
    then obtain c cs where it: "iteration < MAX_ITERATIONS"
      and fc: "functionCalls result = Inr (Some (c # cs))"
      by blast
    obtain w1 parts where ex: "exec_tools env cfg w (c # cs) [] = (w1, parts)"
      by (cases "exec_tools env cfg w (c # cs) []")
    obtain w2 r2 where sm: "sendMessage env tools w1 (Parts parts) = (w2, r2)"
      by (cases "sendMessage env tools w1 (Parts parts)")
    note s1 = exec_tools_connected [OF "1.prems"(1) ex]
    note s2 = sendMessage_connected [OF connected_client [OF s1] sm]
    note s12 = connected_trans [OF s1 s2]
    show ?thesis
    proof (cases r2)
      case (Inl err)
      with "1.prems" it fc ex sm have "w' = w2" by (simp add: tool_loop.simps)
      with s12 show ?thesis by simp
    next
      case (Inr res')
      with "1.prems" it fc ex sm have "tool_loop env cfg tools w2 (iteration + 1) res' = (w', r)"
        by (simp add: tool_loop.simps)
      with connected_client [OF s2] have "connected_as w2 w'"
        by (rule "1.IH" [OF it fc refl refl ex [symmetric] sm [symmetric] Inr])
      with s12 show ?thesis by (rule connected_trans)
    qed
  qed
qed

lemma getGeminiTools_again:
  "client w \<Longrightarrow>
     getGeminiTools env cfg w
       = (case mcp_list_tools env (trace w) of
            Inl err \<Rightarrow> (w\<lparr>trace := trace w @ [(McpListTools, False)]\<rparr>, Inl err)
          | Inr tools \<Rightarrow> (w\<lparr>trace := trace w @ [(McpListTools, True)]\<rparr>, convertTools tools))"
  by (simp add: getGeminiTools_def getClient_def client_listTools_def log_effect_def
      split: sum.splits)

lemma getGeminiTools_connected:
  "client w \<Longrightarrow> getGeminiTools env cfg w = (w', r) \<Longrightarrow> connected_as w w'"
  by (auto simp: getGeminiTools_again connected_as_def connects_def split: sum.splits)

lemma generateAnswer_connected:
  assumes c: "client w" and g: "generateAnswer env cfg w q = (w', r)"
  shows "connected_as w w'"
proof (cases "GEMINI_API_KEY cfg = []")
  case True
  with g c show ?thesis by (simp add: generateAnswer_def connected_refl)
next
  case False
  obtain w1 r1 where gt: "getGeminiTools env cfg w = (w1, r1)"
    by (cases "getGeminiTools env cfg w")
  note s1 = getGeminiTools_connected [OF c gt]
  show ?thesis
  proof (cases r1)
    case (Inl err)
    with g gt False have "w' = w1"
      by (simp add: generateAnswer_def generateAnswer_try_def)
    with s1 show ?thesis by simp
  next
    case (Inr tools)
    define w2 where "w2 = w1\<lparr>genAI := True\<rparr>"
    have s2: "connected_as w w2"
      using s1 by (simp add: connected_as_def w2_def)
    obtain w3 r3 where sm: "sendMessage env tools w2 (Text q) = (w3, r3)"
      by (cases "sendMessage env tools w2 (Text q)")
    note s3 = connected_trans [OF s2 sendMessage_connected [OF connected_client [OF s2] sm]]
    show ?thesis
    proof (cases r3)
      case (Inl err)
      with g gt Inr False sm have "w' = w3"
        by (simp add: generateAnswer_def generateAnswer_try_def getModel_def w2_def)
      with s3 show ?thesis by simp
    next
      case r3: (Inr res)
      obtain w4 r4 where tl: "tool_loop env cfg tools w3 0 res = (w4, r4)"
        by (cases "tool_loop env cfg tools w3 0 res")
      from g gt Inr False sm r3 tl have "w' = w4"
        by (auto simp: generateAnswer_def generateAnswer_try_def getModel_def w2_def
            split: sum.splits)
      with connected_trans [OF s3 tool_loop_connected [OF connected_client [OF s3] tl]]
      show ?thesis by simp
    qed
  qed
qed

lemma generateAnswer_single_connected:
  "client w \<Longrightarrow> generateAnswer_single env cfg w q p = (w', r) \<Longrightarrow> connected_as w w'"
  by (auto simp: generateAnswer_single_def getModel_def sendMessage_def log_effect_def
      connected_as_def connects_def split: if_splits sum.splits)

lemma pubsub_push_connected:
  assumes c: "client w" and run: "pubsub_push env cfg w m = (w', r)"
  shows "connected_as w w'"
proof (cases m)
  case NoData
  with run c show ?thesis by (simp add: pubsub_push_def connected_refl)
next
  case Undecodable
  with run c show ?thesis by (simp add: pubsub_push_def connected_refl)
next
  case (Data ev)
  define w1 where "w1 = log_effect w (FirestoreGet (event_id ev))
      (firestore_get_error env (trace w) (event_id ev) = None)"
  have s1: "connected_as w w1"
    unfolding w1_def using c by (simp add: connected_log)
  show ?thesis
  proof (cases "firestore_get_error env (trace w) (event_id ev) = None
      \<and> processed_events w (event_id ev) \<noteq> None")
    case True
    with run Data have "w' = w1"
      by (auto simp: pubsub_push_def isEventProcessed_result w1_def)
    with s1 show ?thesis by simp
  next
    case False
    obtain w2 r2 where pe: "process_event env cfg w1 ev = (w2, r2)"
      by (cases "process_event env cfg w1 ev")
    with run Data False have w': "w' = w2"
      by (auto simp: pubsub_push_def isEventProcessed_result w1_def split: sum.splits)
    have "connected_as w1 w2"
    proof (cases "extract_question (event_text ev) = []")
      case True
      with pe connected_client [OF s1] show ?thesis
        by (auto simp: process_event_def Let_def replyToSlack_def slack_postMessage_def
            markEventProcessed_def firestore_doc_set_def log_effect_def connected_as_def
            connects_def split: option.splits)
    next
      case q: False
      obtain w3 a where g: "generateAnswer env cfg w1 (extract_question (event_text ev)) = (w3, Inr a)"
        using generateAnswer_returns by blast
      note s3 = generateAnswer_connected [OF connected_client [OF s1] g]
      from pe q g have "connected_as w3 w2"
        using connected_client [OF s3]
        by (auto simp: process_event_def Let_def replyToSlack_def slack_postMessage_def
            markEventProcessed_def firestore_doc_set_def log_effect_def connected_as_def
            connects_def split: option.splits)
      with s3 show ?thesis by (rule connected_trans)
    qed
    with s1 w' show ?thesis by (auto intro: connected_trans)
  qed
qed

lemma run_operation_connected:
  "client w \<Longrightarrow> connected_as w (run_operation env cfg w x)"
proof (cases x)
  case (Deliver m)
  assume "client w"
  then show ?thesis
    using pubsub_push_connected [of w env cfg m] Deliver
    by (cases "pubsub_push env cfg w m") simp
next
  case (GenerateAnswer q)
  assume "client w"
  then show ?thesis
    using generateAnswer_connected [of w env cfg q] GenerateAnswer
    by (cases "generateAnswer env cfg w q") simp
next
  case (GenerateAnswerSingle q p)
  assume "client w"
  then show ?thesis
    using generateAnswer_single_connected [of w env cfg q p] GenerateAnswerSingle
    by (cases "generateAnswer_single env cfg w q p") simp
next
  case GetGeminiTools
  assume "client w"
  then show ?thesis
    using getGeminiTools_connected [of w env cfg] GetGeminiTools
    by (cases "getGeminiTools env cfg w") simp
next
  case (CallMcpTool n a)
  assume "client w"
  then show ?thesis
    using callMcpTool_connected [of w env cfg n a] CallMcpTool
    by (cases "callMcpTool env cfg w n a") simp
qed

lemma run_operations_connected:
  "client w \<Longrightarrow> connected_as w (run_operations env cfg w xs)"
proof (induction xs arbitrary: w)
  case Nil
  then show ?case by (simp add: connected_refl)
next
  case (Cons x xs)
  note s1 = run_operation_connected [OF Cons.prems, of env cfg x]
  from Cons.IH [OF connected_client [OF s1]] s1 show ?case
    by (auto intro: connected_trans)
qed

lemma getGeminiTools_sets_client:
  "getGeminiTools env cfg w = (w1, Inr decls) \<Longrightarrow> client w1"
  by (auto simp: getGeminiTools_def getClient_def client_connect_def client_listTools_def
      log_effect_def split: if_splits option.splits sum.splits prod.splits)


lemma conversion_throws_example:
  "getGeminiTools (env_answers\<lparr>mcp_list_tools := (\<lambda>tr. Inr [search_tool, union_tool])\<rparr>)
      cfg_ok w_init
     = (w_listed, Inl NOT_A_FUNCTION)"
  by (simp add: w_listed_def union_tool_def search_tool_def mapSchemaType_def
      toLowerCase_ascii_def example_defs call_defs worker_defs)

text \<open>
  Claim C8, amended. Only the client connection is cached. After a successful
  \<open>getGeminiTools\<close> the module variable \<open>client\<close> is set, and it stays set through
  every later delivery, answer generation, catalogue fetch and tool call, none of which
  opens a connection; only \<open>closeClient\<close> resets it, and the call after that connects
  again. Every later \<open>getGeminiTools\<close> call, in whatever state those operations have
  left, reuses the connection but fetches the catalogue again (one more
  \<^verbatim>\<open>listTools\<close> request per call) and returns the conversion of what that fetch
  returned, or the error of the fetch or of the conversion.
\<close>

theorem connection_is_cached_catalog_is_fetched_again:
  assumes first: "getGeminiTools env cfg w = (w1, Inr decls)"
    and later: "w2 = run_operations env cfg w1 ops"
  shows "client w1 \<and> client w2 \<and> connects (trace w2) = connects (trace w1)
     \<and> getGeminiTools env cfg w2
        = (case mcp_list_tools env (trace w2) of
             Inl err \<Rightarrow> (w2\<lparr>trace := trace w2 @ [(McpListTools, False)]\<rparr>, Inl err)
           | Inr tools \<Rightarrow> (w2\<lparr>trace := trace w2 @ [(McpListTools, True)]\<rparr>, convertTools tools))
     \<and> connects (trace (fst (getGeminiTools env cfg w2))) = connects (trace w2)
     \<and> catalog_fetches (trace (fst (getGeminiTools env cfg w2))) = catalog_fetches (trace w2) + 1
     \<and> \<not> client (closeClient w2)
     \<and> (MCP_URL_valid cfg \<longrightarrow>
          connects (trace (fst (getGeminiTools env cfg (closeClient w2)))) = connects (trace w2) + 1)"
proof -
  from first have c1: "client w1"
    by (rule getGeminiTools_sets_client)
  from run_operations_connected [OF c1, of env cfg ops] later
  have c2: "client w2" and same: "connects (trace w2) = connects (trace w1)"
    by (simp_all add: connected_as_def)
  note again = getGeminiTools_again [OF c2, of env cfg]
  have counts: "connects (trace (fst (getGeminiTools env cfg w2))) = connects (trace w2)
     \<and> catalog_fetches (trace (fst (getGeminiTools env cfg w2))) = catalog_fetches (trace w2) + 1"
    unfolding again by (simp add: connects_def catalog_fetches_def split: sum.splits)
  have closed: "\<not> client (closeClient w2)"
    by (simp add: closeClient_def)
  have reconnect: "connects (trace (fst (getGeminiTools env cfg (closeClient w2))))
      = connects (trace w2) + 1" if "MCP_URL_valid cfg"
    using that c2
    by (simp add: getGeminiTools_def getClient_def closeClient_def client_connect_def
        client_listTools_def log_effect_def connects_def split: option.splits sum.splits)
  from c1 c2 same again counts closed reconnect show ?thesis by blast
qed

theorem connection_is_cached_catalog_is_fetched_again_witness:
  "getGeminiTools env_catalog_changes cfg_ok w_init = (w_listed, Inr [search_declaration])
   \<and> MCP_URL_valid cfg_ok
   \<and> connects (trace w_listed) = 1 \<and> catalog_fetches (trace w_listed) = 1
   \<and> connects (trace (run_operations env_catalog_changes cfg_ok w_listed
                         [Deliver (Data ev_question)])) = 1
   \<and> catalog_fetches (trace (run_operations env_catalog_changes cfg_ok w_listed
                                [Deliver (Data ev_question)])) = 2
   \<and> snd (getGeminiTools env_catalog_changes cfg_ok
            (run_operations env_catalog_changes cfg_ok w_listed [Deliver (Data ev_question)]))
       = Inr []
   \<and> connects (trace (fst (getGeminiTools env_catalog_changes cfg_ok
            (run_operations env_catalog_changes cfg_ok w_listed [Deliver (Data ev_question)]))))
       = 1
   \<and> catalog_fetches (trace (fst (getGeminiTools env_catalog_changes cfg_ok
            (run_operations env_catalog_changes cfg_ok w_listed [Deliver (Data ev_question)]))))
       = 3
   \<and> connects (trace (fst (getGeminiTools env_catalog_changes cfg_ok
            (closeClient (run_operations env_catalog_changes cfg_ok w_listed
                            [Deliver (Data ev_question)])))))
       = 2"
proof -
  define w2 where "w2 = run_operations env_catalog_changes cfg_ok w_listed [Deliver (Data ev_question)]"
  have first: "getGeminiTools env_catalog_changes cfg_ok w_init = (w_listed, Inr [search_declaration])"
    by (simp add: w_listed_def env_catalog_changes_def search_tool_def search_declaration_def
        catalog_fetches_def mapSchemaType_def toLowerCase_ascii_def example_defs call_defs
        worker_defs)
  have url: "MCP_URL_valid cfg_ok"
    by (simp add: cfg_ok_def)
  have l: "connects (trace w_listed) = 1 \<and> catalog_fetches (trace w_listed) = 1"
    by (simp add: w_listed_def w_init_def connects_def catalog_fetches_def)
  have f2: "catalog_fetches (trace w2) = 2"
    unfolding w2_def
    by (simp add: w_listed_def env_catalog_changes_def catalog_fetches_def example_defs
        call_defs worker_defs)
  have none: "mcp_list_tools env_catalog_changes (trace w2) = Inr []"
    using f2 by (simp add: env_catalog_changes_def)
  note inst = connection_is_cached_catalog_is_fetched_again [OF first w2_def]
  from inst have i1: "connects (trace w2) = connects (trace w_listed)"
    by blast
  from inst have i2: "getGeminiTools env_catalog_changes cfg_ok w2
        = (case mcp_list_tools env_catalog_changes (trace w2) of
             Inl err \<Rightarrow> (w2\<lparr>trace := trace w2 @ [(McpListTools, False)]\<rparr>, Inl err)
           | Inr tools \<Rightarrow> (w2\<lparr>trace := trace w2 @ [(McpListTools, True)]\<rparr>, convertTools tools))"
    by blast
  from inst have i3: "connects (trace (fst (getGeminiTools env_catalog_changes cfg_ok w2)))
      = connects (trace w2)"
    by blast
  from inst have i4: "catalog_fetches (trace (fst (getGeminiTools env_catalog_changes cfg_ok w2)))
      = catalog_fetches (trace w2) + 1"
    by blast
  from inst url have i5:
    "connects (trace (fst (getGeminiTools env_catalog_changes cfg_ok (closeClient w2))))
      = connects (trace w2) + 1"
    by blast
  from i1 l have c2: "connects (trace w2) = 1"
    by simp
  have again: "snd (getGeminiTools env_catalog_changes cfg_ok w2) = Inr []"
    by (simp add: i2 none convertTools_def)
  from i3 c2 have c3: "connects (trace (fst (getGeminiTools env_catalog_changes cfg_ok w2))) = 1"
    by simp
  from i4 f2 have f3:
    "catalog_fetches (trace (fst (getGeminiTools env_catalog_changes cfg_ok w2))) = 3"
    by simp
  from i5 c2 have c4:
    "connects (trace (fst (getGeminiTools env_catalog_changes cfg_ok (closeClient w2)))) = 2"
    by simp
  from first url l c2 f2 again c3 f3 c4 show ?thesis
    unfolding w2_def by blast
qed

text \<open>
  Claim C10. With an empty \<^verbatim>\<open>GEMINI_API_KEY\<close> both variants of \<open>generateAnswer\<close> return
  the fixed configuration-error answer with \<open>success = False\<close> and leave the state as it
  was: nothing is logged, so no model call, no catalogue fetch and no tool call is made.
\<close>

theorem generateAnswer_without_api_key:
  "GEMINI_API_KEY cfg = [] \<Longrightarrow>
     generateAnswer env cfg w question
       = (w, Inr \<lparr>answer = CONFIG_ERROR_ANSWER, success = False\<rparr>)
     \<and> generateAnswer_single env cfg w question passages
       = (w, Inr \<lparr>answer = CONFIG_ERROR_ANSWER, success = False\<rparr>)
     \<and> CONFIG_ERROR_ANSWER \<noteq> []"
  by (simp add: generateAnswer_def generateAnswer_single_def CONFIG_ERROR_ANSWER_def)

theorem generateAnswer_without_api_key_witness:
  "GEMINI_API_KEY cfg_nokey = []
   \<and> generateAnswer env_answers cfg_nokey w_init (ascii ''OpenRTB'')
       = (w_init, Inr \<lparr>answer = CONFIG_ERROR_ANSWER, success = False\<rparr>)
   \<and> generateAnswer_single env_answers cfg_nokey w_init (ascii ''OpenRTB'') (ascii ''passage'')
       = (w_init, Inr \<lparr>answer = CONFIG_ERROR_ANSWER, success = False\<rparr>)"
proof -
  have k: "GEMINI_API_KEY cfg_nokey = []"
    by (simp add: cfg_nokey_def cfg_ok_def)
  show ?thesis
    using k generateAnswer_without_api_key [OF k, of env_answers w_init "ascii ''OpenRTB''" "ascii ''passage''"]
    by simp
qed


end
